theory Spec2Isabelle
  imports Main "HOL-Library.Word" "HOL-Library.Char_ord" "HOL-Library.List_Lexorder"
begin

unbundle bit_operations_syntax

section \<open>JavaScript values and errors\<close>

text \<open>
  The plugin is TypeScript running on a JavaScript engine. The values that reach the
  buckets of the metadata model are what \<^verbatim>\<open>toName\<close> and the \<^verbatim>\<open>a && b && c\<close> chains return:
  a string, \<^verbatim>\<open>false\<close> or \<^verbatim>\<open>undefined\<close>; \<^verbatim>\<open>className\<close> starts as \<^verbatim>\<open>null\<close>.
  Reading a property of \<^verbatim>\<open>undefined\<close> raises a TypeError, which aborts the running request.
\<close>

datatype js_value = JString string | JFalse | JUndefined | JNull

datatype error = TypeError

text \<open>\<^verbatim>\<open>array.includes(v)\<close> for an array of strings: only a string can be found.\<close>

fun array_includes :: "string list \<Rightarrow> js_value \<Rightarrow> bool" where
  "array_includes xs (JString s) = (s \<in> set xs)"
| "array_includes xs v = False"

text \<open>\<^verbatim>\<open>array.indexOf(v)\<close>: the first index holding \<open>v\<close>, or \<open>-1\<close>.\<close>

fun indexOf :: "'a list \<Rightarrow> 'a \<Rightarrow> int" where
  "indexOf [] v = -1"
| "indexOf (x # xs) v =
     (if x = v then 0 else (let i = indexOf xs v in if i > -1 then i + 1 else -1))"

section \<open>The declaration tree\<close>

text \<open>
  A decorator is its expression. \<^verbatim>\<open>ts.isCallExpression(dec.expression)\<close> holds for
  \<open>CallExpression\<close>; its callee (\<^verbatim>\<open>dec.expression.expression\<close>) is an identifier with its
  text or some other expression; its arguments are string literals, object literals
  (with their property names) or other expressions.
\<close>

datatype expression = IdentifierExpr string | OtherExpr

datatype argument = StringLiteral string | ObjectLiteral "string list" | OtherArgument

datatype decorator = CallExpression expression "argument list" | OtherDecorator

text \<open>
  \<^verbatim>\<open>node.name\<close>: absent, an identifier with its text, or another kind of name
  (computed, string or numeric literal).
\<close>

datatype declaration_name = NoName | IdentifierName string | OtherName

text \<open>The syntax kinds the plugin tells apart; an identifier node carries its \<^verbatim>\<open>text\<close>.\<close>

datatype syntax_kind =
  Identifier string | ClassDeclaration | PropertyDeclaration | MethodDeclaration | OtherKind

text \<open>
  A node has its kind, \<^verbatim>\<open>node.decorators\<close> (\<^verbatim>\<open>undefined\<close> or an array), \<^verbatim>\<open>node.name\<close>,
  \<^verbatim>\<open>node.members\<close> and its remaining children. \<^verbatim>\<open>node.forEachChild\<close> visits the remaining
  children (decorators, name, type parameters, heritage clauses) and then the members,
  which is the order of the TypeScript compiler for a class declaration.
\<close>

datatype node =
  Node (kind: syntax_kind) (decorators: "decorator list option") (name: declaration_name)
       (members: "node list") (children: "node list")

section \<open>The metadata model\<close>

datatype watcher = Watcher (w_prop: js_value) (w_handler: js_value)

datatype listener = Listener (l_events: "js_value list") (l_handler: js_value)

record DocumentMeta =
  className :: js_value
  internalProperties :: "js_value list"
  elements :: "js_value list"
  states :: "js_value list"
  propsConnect :: "js_value list"
  propsContext :: "js_value list"
  props :: "js_value list"
  watched :: "watcher list"
  events :: "js_value list"
  lifecycle :: "js_value list"
  listeners :: "listener list"
  methods :: "js_value list"
  internalMethods :: "js_value list"

definition ComponentBuiltinMethods :: "string list" where
  "ComponentBuiltinMethods = [''render'', ''hostData'']"

definition ComponentLifecycleMethods :: "string list" where
  "ComponentLifecycleMethods =
     [''componentWillLoad'', ''componentDidLoad'', ''componentWillUpdate'',
      ''componentDidUpdate'', ''componentDidUnload'']"

section \<open>Extraction\<close>

text \<open>
  The test shared by \<^verbatim>\<open>hasDecoratorNamed\<close>, \<^verbatim>\<open>isComponentClass\<close> and the \<^verbatim>\<open>find\<close>/\<^verbatim>\<open>filter\<close>
  calls of \<^verbatim>\<open>gatherDocumentMeta\<close>: a call expression whose callee is an identifier with
  the given text.
\<close>

fun isCallNamed :: "string \<Rightarrow> decorator \<Rightarrow> bool" where
  "isCallNamed nm (CallExpression (IdentifierExpr t) args) = (t = nm)"
| "isCallNamed nm d = False"

definition hasDecoratorNamed :: "node \<Rightarrow> string \<Rightarrow> bool" where
  "hasDecoratorNamed n nm =
     (case decorators n of None \<Rightarrow> False | Some ds \<Rightarrow> list_ex (isCallNamed nm) ds)"

definition toName :: "node \<Rightarrow> js_value" where
  "toName member =
     (case name member of
        NoName \<Rightarrow> JUndefined
      | IdentifierName t \<Rightarrow> JString t
      | OtherName \<Rightarrow> JFalse)"

definition isComponentClass :: "node \<Rightarrow> bool" where
  "isComponentClass n =
     (if kind n = ClassDeclaration
      then (case decorators n of None \<Rightarrow> False
            | Some ds \<Rightarrow> list_ex (isCallNamed ''Component'') ds)
      else False)"

text \<open>
  \<^verbatim>\<open>ts.isCallExpression(d.expression) && ts.isStringLiteral(d.expression.arguments[0])
  && d.expression.arguments[0].text\<close>. With no argument, \<^verbatim>\<open>arguments[0]\<close> is \<^verbatim>\<open>undefined\<close> and
  \<^verbatim>\<open>ts.isStringLiteral\<close> reads its \<^verbatim>\<open>kind\<close>: a TypeError.
\<close>

fun firstArgumentText :: "decorator \<Rightarrow> error + js_value" where
  "firstArgumentText (CallExpression callee []) = Inl TypeError"
| "firstArgumentText (CallExpression callee (StringLiteral t # args)) = Inr (JString t)"
| "firstArgumentText (CallExpression callee (a # args)) = Inr JFalse"
| "firstArgumentText OtherDecorator = Inr JFalse"

text \<open>\<^verbatim>\<open>decorators.map(firstArgumentText)\<close>, stopping at the first exception.\<close>

fun mapArgumentTexts :: "decorator list \<Rightarrow> error + js_value list" where
  "mapArgumentTexts [] = Inr []"
| "mapArgumentTexts (d # ds) =
     (case firstArgumentText d of
        Inl e \<Rightarrow> Inl e
      | Inr v \<Rightarrow> (case mapArgumentTexts ds of Inl e \<Rightarrow> Inl e | Inr vs \<Rightarrow> Inr (v # vs)))"

text \<open>The body of \<^verbatim>\<open>undecorated.forEach\<close>.\<close>

definition processUndecorated :: "node \<Rightarrow> DocumentMeta \<Rightarrow> DocumentMeta" where
  "processUndecorated member meta =
     (if array_includes ComponentBuiltinMethods (toName member) then meta
      else if array_includes ComponentLifecycleMethods (toName member)
        then meta\<lparr>lifecycle := lifecycle meta @ [toName member]\<rparr>
      else if kind member = PropertyDeclaration
        then meta\<lparr>internalProperties := internalProperties meta @ [toName member]\<rparr>
      else if kind member = MethodDeclaration
        then meta\<lparr>internalMethods := internalMethods meta @ [toName member]\<rparr>
      else meta)"

text \<open>The two argument-bearing roles of \<^verbatim>\<open>decorated.forEach\<close>.\<close>

definition pushWatched :: "node \<Rightarrow> DocumentMeta \<Rightarrow> error + DocumentMeta" where
  "pushWatched member meta =
     (if hasDecoratorNamed member ''Watch'' then
        (case decorators member of
           None \<Rightarrow> Inl TypeError
         | Some ds \<Rightarrow>
            (case List.find (isCallNamed ''Watch'') ds of
               None \<Rightarrow> Inl TypeError
             | Some d \<Rightarrow>
                (case firstArgumentText d of
                   Inl e \<Rightarrow> Inl e
                 | Inr p \<Rightarrow>
                     Inr (meta\<lparr>watched := watched meta @ [Watcher p (toName member)]\<rparr>))))
      else Inr meta)"

definition pushListeners :: "node \<Rightarrow> DocumentMeta \<Rightarrow> error + DocumentMeta" where
  "pushListeners member meta =
     (if hasDecoratorNamed member ''Listen'' then
        (case decorators member of
           None \<Rightarrow> Inl TypeError
         | Some ds \<Rightarrow>
            (case mapArgumentTexts (filter (isCallNamed ''Listen'') ds) of
               Inl e \<Rightarrow> Inl e
             | Inr evs \<Rightarrow>
                 Inr (meta\<lparr>listeners := listeners meta @ [Listener evs (toName member)]\<rparr>)))
      else Inr meta)"

text \<open>The body of \<^verbatim>\<open>decorated.forEach\<close>: seven independent tests, in the source's order.\<close>

definition processDecorated :: "node \<Rightarrow> DocumentMeta \<Rightarrow> error + DocumentMeta" where
  "processDecorated member meta =
     (let m1 = (if hasDecoratorNamed member ''Element''
                then meta\<lparr>elements := elements meta @ [toName member]\<rparr> else meta);
          m2 = (if hasDecoratorNamed member ''State''
                then m1\<lparr>states := states m1 @ [toName member]\<rparr> else m1)
      in case pushWatched member m2 of
           Inl e \<Rightarrow> Inl e
         | Inr m3 \<Rightarrow>
            (case pushListeners member m3 of
               Inl e \<Rightarrow> Inl e
             | Inr m4 \<Rightarrow>
                (let m5 = (if hasDecoratorNamed member ''Event''
                           then m4\<lparr>events := events m4 @ [toName member]\<rparr> else m4);
                     m6 = (if hasDecoratorNamed member ''Method''
                           then m5\<lparr>methods := methods m5 @ [toName member]\<rparr> else m5);
                     m7 = (if hasDecoratorNamed member ''Prop''
                           then m6\<lparr>props := props m6 @ [toName member]\<rparr> else m6)
                 in Inr m7)))"

text \<open>\<^verbatim>\<open>xs.forEach(f)\<close> for a body that may raise: the first exception ends the loop.\<close>

fun forEach :: "('a \<Rightarrow> 's \<Rightarrow> error + 's) \<Rightarrow> 'a list \<Rightarrow> 's \<Rightarrow> error + 's" where
  "forEach f [] s = Inr s"
| "forEach f (x # xs) s = (case f x s of Inl e \<Rightarrow> Inl e | Inr s' \<Rightarrow> forEach f xs s')"

text \<open>
  What \<^verbatim>\<open>visit\<close> does at a component class before it goes on to the children:
  \<^verbatim>\<open>ts.isIdentifier(node.name)\<close> raises when the class has no name.
\<close>

definition processClass :: "node \<Rightarrow> DocumentMeta \<Rightarrow> error + DocumentMeta" where
  "processClass n meta =
     (case name n of
        NoName \<Rightarrow> Inl TypeError
      | _ \<Rightarrow>
        (let meta1 = meta\<lparr>className := toName n\<rparr>;
             undecorated = filter (\<lambda>member. decorators member = None) (members n);
             decorated = filter (\<lambda>member. decorators member \<noteq> None) (members n);
             meta2 = fold processUndecorated undecorated meta1
         in forEach processDecorated decorated meta2))"

fun visit :: "node \<Rightarrow> DocumentMeta \<Rightarrow> error + DocumentMeta"
  and forEachChild :: "node list \<Rightarrow> DocumentMeta \<Rightarrow> error + DocumentMeta" where
  "visit (Node k ds nm ms cs) meta =
     (if isComponentClass (Node k ds nm ms cs)
      then (case processClass (Node k ds nm ms cs) meta of
              Inl e \<Rightarrow> Inl e
            | Inr meta' \<Rightarrow>
               (case forEachChild cs meta' of
                  Inl e \<Rightarrow> Inl e
                | Inr meta'' \<Rightarrow> forEachChild ms meta''))
      else (case forEachChild cs meta of
              Inl e \<Rightarrow> Inl e
            | Inr meta'' \<Rightarrow> forEachChild ms meta''))"
| "forEachChild [] meta = Inr meta"
| "forEachChild (n # ns) meta =
     (case visit n meta of Inl e \<Rightarrow> Inl e | Inr meta' \<Rightarrow> forEachChild ns meta')"

definition emptyMeta :: DocumentMeta where
  "emptyMeta =
     \<lparr>className = JNull, internalProperties = [], elements = [], states = [],
      propsConnect = [], propsContext = [], props = [], watched = [], events = [],
      lifecycle = [], listeners = [], methods = [], internalMethods = []\<rparr>"

definition gatherDocumentMeta :: "node \<Rightarrow> error + DocumentMeta" where
  "gatherDocumentMeta sourceFile = visit sourceFile emptyMeta"

section \<open>Vocabulary of the extraction claims\<close>

text \<open>
  The classes carrying the component annotation, in depth-first pre-order: the order in
  which \<^verbatim>\<open>visit\<close> meets them.
\<close>

fun componentClasses :: "node \<Rightarrow> node list"
  and componentClassesOf :: "node list \<Rightarrow> node list" where
  "componentClasses (Node k ds nm ms cs) =
     (if isComponentClass (Node k ds nm ms cs) then [Node k ds nm ms cs] else [])
       @ componentClassesOf cs @ componentClassesOf ms"
| "componentClassesOf [] = []"
| "componentClassesOf (n # ns) = componentClasses n @ componentClassesOf ns"

text \<open>The members of those classes, in the order of processing.\<close>

definition classMembers :: "node \<Rightarrow> node list" where
  "classMembers t = concat (map members (componentClasses t))"

datatype bucket =
  InternalProperties | InternalMethods | Lifecycle
  | Elements | States | Watched | Listeners | Events | Methods | Props
  | PropsConnect | PropsContext

fun names :: "bucket \<Rightarrow> DocumentMeta \<Rightarrow> js_value list" where
  "names InternalProperties m = internalProperties m"
| "names InternalMethods m = internalMethods m"
| "names Lifecycle m = lifecycle m"
| "names Elements m = elements m"
| "names States m = states m"
| "names Watched m = map w_handler (watched m)"
| "names Listeners m = map l_handler (listeners m)"
| "names Events m = events m"
| "names Methods m = methods m"
| "names Props m = props m"
| "names PropsConnect m = propsConnect m"
| "names PropsContext m = propsContext m"

fun placedIn :: "bucket \<Rightarrow> node \<Rightarrow> bool" where
  "placedIn InternalProperties x =
     (decorators x = None \<and> \<not> array_includes ComponentBuiltinMethods (toName x)
      \<and> \<not> array_includes ComponentLifecycleMethods (toName x) \<and> kind x = PropertyDeclaration)"
| "placedIn InternalMethods x =
     (decorators x = None \<and> \<not> array_includes ComponentBuiltinMethods (toName x)
      \<and> \<not> array_includes ComponentLifecycleMethods (toName x) \<and> kind x = MethodDeclaration)"
| "placedIn Lifecycle x =
     (decorators x = None \<and> \<not> array_includes ComponentBuiltinMethods (toName x)
      \<and> array_includes ComponentLifecycleMethods (toName x))"
| "placedIn Elements x = hasDecoratorNamed x ''Element''"
| "placedIn States x = hasDecoratorNamed x ''State''"
| "placedIn Watched x = hasDecoratorNamed x ''Watch''"
| "placedIn Listeners x = hasDecoratorNamed x ''Listen''"
| "placedIn Events x = hasDecoratorNamed x ''Event''"
| "placedIn Methods x = hasDecoratorNamed x ''Method''"
| "placedIn Props x = hasDecoratorNamed x ''Prop''"
| "placedIn PropsConnect x = False"
| "placedIn PropsContext x = False"

section \<open>Concrete declaration trees\<close>

definition decorator_call :: "string \<Rightarrow> argument list \<Rightarrow> decorator" where
  "decorator_call callee args = CallExpression (IdentifierExpr callee) args"

definition property_decl :: "decorator list option \<Rightarrow> string \<Rightarrow> node" where
  "property_decl ds nm = Node PropertyDeclaration ds (IdentifierName nm) [] []"

definition method_decl :: "decorator list option \<Rightarrow> string \<Rightarrow> node" where
  "method_decl ds nm = Node MethodDeclaration ds (IdentifierName nm) [] []"

definition component_class :: "string \<Rightarrow> node list \<Rightarrow> node" where
  "component_class nm ms =
     Node ClassDeclaration (Some [decorator_call ''Component'' [ObjectLiteral [''tag'']]])
       (IdentifierName nm) ms []"

definition source_file_of :: "node list \<Rightarrow> node" where
  "source_file_of statements = Node OtherKind None NoName [] statements"

text \<open>
  \<^verbatim>\<open>@Component({tag}) class MyComponent { @State() count; @Prop() label;
  @Watch('label') onLabelChange() {} @Listen('click') @Listen('keydown') onKey() {}
  componentDidLoad() {} render() {} helper() {} total; }\<close>
\<close>

definition exampleComponent :: node where
  "exampleComponent = source_file_of
     [component_class ''MyComponent''
        [property_decl (Some [decorator_call ''State'' []]) ''count'',
         property_decl (Some [decorator_call ''Prop'' []]) ''label'',
         method_decl (Some [decorator_call ''Watch'' [StringLiteral ''label'']]) ''onLabelChange'',
         method_decl (Some [decorator_call ''Listen'' [StringLiteral ''click''],
                            decorator_call ''Listen'' [StringLiteral ''keydown'']]) ''onKey'',
         method_decl None ''componentDidLoad'',
         method_decl None ''render'',
         method_decl None ''helper'',
         property_decl None ''total'']]"

text \<open>\<^verbatim>\<open>@Component({tag}) class MyComponent { @State() @Prop() x; }\<close>\<close>

definition exampleTwoRoles :: node where
  "exampleTwoRoles = source_file_of
     [component_class ''MyComponent''
        [property_decl (Some [decorator_call ''State'' [], decorator_call ''Prop'' []]) ''x'']]"

text \<open>\<^verbatim>\<open>@Component({tag}) class MyComponent { @Prop({ connect: 'ion-alert-controller' }) alertCtrl; }\<close>\<close>

definition exampleConnect :: node where
  "exampleConnect = source_file_of
     [component_class ''MyComponent''
        [property_decl (Some [decorator_call ''Prop'' [ObjectLiteral [''connect'']]]) ''alertCtrl'']]"

text \<open>
  \<^verbatim>\<open>@Component({tag}) class A { @State() a; }  @Component({tag}) class B { @State() b; }\<close>
\<close>

definition exampleTwoComponents :: node where
  "exampleTwoComponents = source_file_of
     [component_class ''A'' [property_decl (Some [decorator_call ''State'' []]) ''a''],
      component_class ''B'' [property_decl (Some [decorator_call ''State'' []]) ''b'']]"

text \<open>\<^verbatim>\<open>@Component({tag}) class MyComponent { @Watch(PROP_NAME) onChange() {} @State() count; }\<close>\<close>

definition exampleWatchNonLiteral :: node where
  "exampleWatchNonLiteral = source_file_of
     [component_class ''MyComponent''
        [method_decl (Some [decorator_call ''Watch'' [OtherArgument]]) ''onChange'',
         property_decl (Some [decorator_call ''State'' []]) ''count'']]"

text \<open>\<^verbatim>\<open>@Component({tag}) class MyComponent { @Watch() onChange() {} @State() count; }\<close>\<close>

definition exampleWatchNoArgument :: node where
  "exampleWatchNoArgument = source_file_of
     [component_class ''MyComponent''
        [method_decl (Some [decorator_call ''Watch'' []]) ''onChange'',
         property_decl (Some [decorator_call ''State'' []]) ''count'']]"

text \<open>
  \<^verbatim>\<open>@Component({tag}) class MyComponent { @Input() value; @Autobound handler() {} total; }\<close>
\<close>

definition exampleForeignDecorators :: node where
  "exampleForeignDecorators = source_file_of
     [component_class ''MyComponent''
        [property_decl (Some [decorator_call ''Input'' []]) ''value'',
         method_decl (Some [OtherDecorator]) ''handler'',
         property_decl None ''total'']]"

text \<open>\<^verbatim>\<open>@Component({tag}) class MyComponent { @Input() value; value; }\<close>\<close>

definition exampleSameName :: node where
  "exampleSameName = source_file_of
     [component_class ''MyComponent''
        [property_decl (Some [decorator_call ''Input'' []]) ''value'',
         property_decl None ''value'']]"

section \<open>Vocabulary of the placement claims\<close>

text \<open>The nine buckets of the placement invariant.\<close>

definition placementBuckets :: "bucket list" where
  "placementBuckets =
     [InternalProperties, InternalMethods, Elements, States, Props, PropsConnect,
      PropsContext, Methods, Lifecycle]"

text \<open>In how many of the nine buckets a name appears.\<close>

definition occurrences :: "DocumentMeta \<Rightarrow> js_value \<Rightarrow> nat" where
  "occurrences m v = length (filter (\<lambda>b. v \<in> set (names b m)) placementBuckets)"

text \<open>The role annotations \<^verbatim>\<open>decorated.forEach\<close> tests for.\<close>

definition roleNames :: "string list" where
  "roleNames = [''Element'', ''State'', ''Watch'', ''Listen'', ''Event'', ''Method'', ''Prop'']"

definition roleCount :: "node \<Rightarrow> nat" where
  "roleCount x = length (filter (hasDecoratorNamed x) roleNames)"

text \<open>
  What a Watch or Listen annotation contributes when its first argument exists:
  the literal's text, or \<^verbatim>\<open>false\<close> when the argument is not a string literal.
\<close>

fun argumentText :: "decorator \<Rightarrow> js_value" where
  "argumentText (CallExpression callee (StringLiteral t # args)) = JString t"
| "argumentText d = JFalse"

fun hasFirstArgument :: "decorator \<Rightarrow> bool" where
  "hasFirstArgument (CallExpression callee []) = False"
| "hasFirstArgument d = True"

definition argumentsPresent :: "node \<Rightarrow> bool" where
  "argumentsPresent x =
     (case decorators x of
        None \<Rightarrow> True
      | Some ds \<Rightarrow>
          list_all hasFirstArgument
            (filter (\<lambda>d. isCallNamed ''Watch'' d \<or> isCallNamed ''Listen'' d) ds))"

definition watchedEntry :: "node \<Rightarrow> watcher" where
  "watchedEntry x =
     Watcher (case decorators x of
                None \<Rightarrow> JFalse
              | Some ds \<Rightarrow> (case List.find (isCallNamed ''Watch'') ds of
                              None \<Rightarrow> JFalse
                            | Some d \<Rightarrow> argumentText d))
             (toName x)"

definition listenerEntry :: "node \<Rightarrow> listener" where
  "listenerEntry x =
     Listener (case decorators x of
                 None \<Rightarrow> []
               | Some ds \<Rightarrow> map argumentText (filter (isCallNamed ''Listen'') ds))
              (toName x)"

section \<open>Category ranker\<close>

text \<open>\<^verbatim>\<open>xs[i]\<close>: the element at an index in range, \<^verbatim>\<open>undefined\<close> otherwise.\<close>

definition array_at :: "'a list \<Rightarrow> int \<Rightarrow> 'a option" where
  "array_at xs i = (if 0 \<le> i \<and> i < int (length xs) then Some (xs ! nat i) else None)"

text \<open>A string or \<^verbatim>\<open>undefined\<close> in a concatenation or a template literal.\<close>

fun to_string :: "string option \<Rightarrow> string" where
  "to_string (Some s) = s"
| "to_string None = ''undefined''"

definition categories :: "string list" where
  "categories =
     [''own property'', ''element'', ''state'', ''prop:connect'', ''prop:context'', ''prop'',
      ''watch'', ''event'', ''lifecycle'', ''listen'', ''method'', ''local method'']"

text \<open>\<^verbatim>\<open>'abcdefghijklmnopqrstuvwxyz'.split('')\<close>\<close>

definition letters :: "string list" where
  "letters = map (\<lambda>c. [c]) ''abcdefghijklmnopqrstuvwxyz''"

definition lifecycles :: "string list" where
  "lifecycles =
     [''componentWillLoad'', ''componentDidLoad'', ''componentWillUpdate'',
      ''componentDidUpdate'', ''componentDidUnload'']"

definition getSortText :: "string \<Rightarrow> string \<Rightarrow> string" where
  "getSortText category nm =
     (let i = indexOf categories category;
          prefix = (if i > -1 then to_string (array_at letters i) else ''z'');
          prefix' = (if category = ''lifecycle''
                     then prefix @ to_string (array_at letters (indexOf lifecycles nm))
                     else prefix)
      in prefix' @ ''-'' @ nm)"

text \<open>
  The canonical order of the categories as the ranking claim words it: the position in
  the list, an unrecognized category after all of them.
\<close>

definition categoryRank :: "string \<Rightarrow> nat" where
  "categoryRank category =
     (let i = indexOf categories category in if i > -1 then nat i else length categories)"

text \<open>The first letter of the keys of a category.\<close>

definition categoryLetter :: "string \<Rightarrow> char" where
  "categoryLetter category = ''abcdefghijklz'' ! categoryRank category"

section \<open>Type predicate utilities\<close>

text \<open>
  A type with its \<^verbatim>\<open>flags\<close> and, for a union, its member \<^verbatim>\<open>types\<close>. The value of
  \<^verbatim>\<open>ts.TypeFlags.Union\<close> belongs to the TypeScript compiler and differs between its
  versions, so \<^verbatim>\<open>checkType\<close> takes it as its first argument.
\<close>

datatype tstype = TsType (flags: "32 word") (types: "tstype list")

fun checkType :: "32 word \<Rightarrow> tstype \<Rightarrow> (tstype \<Rightarrow> bool) \<Rightarrow> bool" where
  "checkType unionFlag (TsType fl ts) check =
     (if fl AND unionFlag \<noteq> 0
      then (if list_ex (\<lambda>t. checkType unionFlag t check) ts
            then True
            else check (TsType fl ts))
      else check (TsType fl ts))"

text \<open>
  The member types of the flattened union (the types reached through unions that are
  not unions themselves), and the union types met on the way.
\<close>

fun flattened :: "32 word \<Rightarrow> tstype \<Rightarrow> tstype list" where
  "flattened unionFlag (TsType fl ts) =
     (if fl AND unionFlag \<noteq> 0 then concat (map (flattened unionFlag) ts) else [TsType fl ts])"

fun unionsOf :: "32 word \<Rightarrow> tstype \<Rightarrow> tstype list" where
  "unionsOf unionFlag (TsType fl ts) =
     (if fl AND unionFlag \<noteq> 0
      then TsType fl ts # concat (map (unionsOf unionFlag) ts) else [])"

text \<open>
  The flags of TypeScript 3.1 and later: \<^verbatim>\<open>Boolean = 1 << 4\<close>, \<^verbatim>\<open>BooleanLiteral = 1 << 9\<close>,
  \<^verbatim>\<open>Union = 1 << 20\<close>. The type \<^verbatim>\<open>boolean\<close> is the union of the literal types
  \<^verbatim>\<open>false\<close> and \<^verbatim>\<open>true\<close> and carries the flags \<^verbatim>\<open>Boolean | Union\<close>.
\<close>

definition TypeFlags_Boolean :: "32 word" where "TypeFlags_Boolean = 16"
definition TypeFlags_BooleanLiteral :: "32 word" where "TypeFlags_BooleanLiteral = 512"
definition TypeFlags_Union :: "32 word" where "TypeFlags_Union = 1048576"

definition booleanType :: tstype where
  "booleanType =
     TsType (TypeFlags_Boolean OR TypeFlags_Union)
       [TsType TypeFlags_BooleanLiteral [], TsType TypeFlags_BooleanLiteral []]"

text \<open>The predicate \<^verbatim>\<open>t => !!(t.flags & ts.TypeFlags.Boolean)\<close>.\<close>

definition hasBooleanFlag :: "tstype \<Rightarrow> bool" where
  "hasBooleanFlag t = (flags t AND TypeFlags_Boolean \<noteq> 0)"

section \<open>The host and the plugin's constants\<close>

text \<open>
  A source file is a node of the tree with its raw text (\<^verbatim>\<open>sourceFile.getText()\<close>).
\<close>

record source_file =
  getText :: string
  rootNode :: node

text \<open>\<^verbatim>\<open>gatherDocumentMeta(sourceFile)\<close> for the result of \<^verbatim>\<open>getSourceFile\<close>, which may be
  \<^verbatim>\<open>undefined\<close>: \<^verbatim>\<open>visit\<close> then reads the \<^verbatim>\<open>kind\<close> of \<^verbatim>\<open>undefined\<close>.\<close>

definition gatherMetaOf :: "source_file option \<Rightarrow> error + DocumentMeta" where
  "gatherMetaOf sf =
     (case sf of None \<Rightarrow> Inl TypeError | Some f \<Rightarrow> gatherDocumentMeta (rootNode f))"

definition newline :: string where
  "newline = [CHR 0x0A]"

definition backquote :: string where
  "backquote = [CHR 0x60]"

text \<open>\<^verbatim>\<open>Stencil.ComponentLifecycleDocs[name]\<close>: a string, or \<^verbatim>\<open>undefined\<close> for any other key.\<close>

definition ComponentLifecycleDocs :: "string \<Rightarrow> string option" where
  "ComponentLifecycleDocs nm =
     (if nm = ''componentWillLoad'' then
        Some (newline @ newline @ ''The component is about to load and it has not rendered yet.''
          @ newline @ newline
          @ ''This is the best place to make any data updates before the first render.''
          @ newline @ newline
          @ backquote @ ''componentWillLoad'' @ backquote @ '' will only be called once.'')
      else if nm = ''componentDidLoad'' then
        Some (newline @ newline @ ''The component has loaded and has already rendered.''
          @ newline @ newline
          @ ''Updating data in this method will cause the component to re-render.''
          @ newline @ newline
          @ backquote @ ''componentDidLoad'' @ backquote @ '' will only be called once.'')
      else if nm = ''componentWillUpdate'' then
        Some (newline @ newline @ ''The component is about to update and re-render.''
          @ newline @ newline
          @ ''Called multiple times throughout the life of the component as it updates.''
          @ newline @ newline
          @ backquote @ ''componentWillUpdate'' @ backquote @ '' is not called on the first render.'')
      else if nm = ''componentDidUpdate'' then
        Some (newline @ newline @ ''The component has just re-rendered.''
          @ newline @ newline
          @ ''Called multiple times throughout the life of the component as it updates.''
          @ newline @ newline
          @ backquote @ ''componentDidUpdate'' @ backquote @ '' is not called on the first render.'')
      else if nm = ''componentDidUnload'' then
        Some (newline @ newline
          @ ''The component did unload and the element will be destroyed.'')
      else None)"

section \<open>Category lookup\<close>

text \<open>The \<^verbatim>\<open>item\<close> of a lookup: the name, or the watched or listeners entry found.\<close>

datatype category_item = NameItem string | WatchedItem watcher | ListenerItem listener

text \<open>
  \<^verbatim>\<open>getCategory\<close>: the first bucket holding the name, in the order of the source; when no
  test matches, the function ends without a \<^verbatim>\<open>return\<close> and yields \<^verbatim>\<open>undefined\<close>.
\<close>

definition getCategory :: "DocumentMeta \<Rightarrow> string \<Rightarrow> (category_item \<times> string) option" where
  "getCategory meta nm =
     (if JString nm \<in> set (internalProperties meta) then Some (NameItem nm, ''own property'')
      else if JString nm \<in> set (elements meta) then Some (NameItem nm, ''element'')
      else if JString nm \<in> set (states meta) then Some (NameItem nm, ''state'')
      else if JString nm \<in> set (propsConnect meta) then Some (NameItem nm, ''prop:connect'')
      else if JString nm \<in> set (propsContext meta) then Some (NameItem nm, ''prop:context'')
      else if JString nm \<in> set (props meta) then Some (NameItem nm, ''prop'')
      else case List.find (\<lambda>w. w_handler w = JString nm) (watched meta) of
        Some w \<Rightarrow> Some (WatchedItem w, ''watch'')
      | None \<Rightarrow>
      if JString nm \<in> set (events meta) then Some (NameItem nm, ''event'')
      else if JString nm \<in> set (lifecycle meta) then Some (NameItem nm, ''lifecycle'')
      else case List.find (\<lambda>l. l_handler l = JString nm) (listeners meta) of
        Some l \<Rightarrow> Some (ListenerItem l, ''listen'')
      | None \<Rightarrow>
      if JString nm \<in> set (methods meta) then Some (NameItem nm, ''method'')
      else if JString nm \<in> set (internalMethods meta) then Some (NameItem nm, ''local method'')
      else None)"

section \<open>Completion entry details and their cache\<close>

datatype display_part = DisplayPart (part_kind: string) (part_text: js_value)

record CompletionEntryDetails =
  entry_name :: string
  entry_kind :: string
  displayParts :: "display_part list"
  documentation :: "display_part list"

text \<open>\<^verbatim>\<open>xs.splice(start, deleteCount, ...items)\<close> for indices that are not negative.\<close>

definition splice :: "nat \<Rightarrow> nat \<Rightarrow> 'a list \<Rightarrow> 'a list \<Rightarrow> 'a list" where
  "splice start deleteCount items xs = take start xs @ items @ drop (start + deleteCount) xs"

text \<open>A value in a condition: of the values met here, only a non-empty string is truthy.\<close>

fun truthy :: "js_value \<Rightarrow> bool" where
  "truthy (JString s) = (s \<noteq> [])"
| "truthy v = False"

definition buildStencilDecoratorDisplayParts :: "string \<Rightarrow> js_value \<Rightarrow> display_part list" where
  "buildStencilDecoratorDisplayParts knd arg =
     [DisplayPart ''punctuation'' (JString ''@''), DisplayPart ''text'' (JString knd),
      DisplayPart ''punctuation'' (JString ''('')]
     @ (if truthy arg then [DisplayPart ''text'' arg] else [])
     @ [DisplayPart ''punctuation'' (JString '')'')]"

definition buildStencilDisplayParts :: "string \<Rightarrow> display_part list" where
  "buildStencilDisplayParts knd = [DisplayPart ''text'' (JString knd)]"

text \<open>
  The body of \<^verbatim>\<open>if (prior.kind === 'property' || prior.kind === 'method')\<close>. Destructuring
  the \<^verbatim>\<open>undefined\<close> that \<^verbatim>\<open>getCategory\<close> yields for an unmatched name raises a TypeError.
\<close>

definition decorateDetails ::
  "DocumentMeta \<Rightarrow> string \<Rightarrow> CompletionEntryDetails \<Rightarrow> error + CompletionEntryDetails" where
  "decorateDetails meta nm prior =
     (case getCategory meta nm of
        None \<Rightarrow> Inl TypeError
      | Some (WatchedItem w, category) \<Rightarrow>
          Inr (prior\<lparr>displayParts :=
                 splice 1 1 (buildStencilDisplayParts ''watch'') (displayParts prior)
                 @ [DisplayPart ''punctuation'' (JString newline),
                    DisplayPart ''punctuation'' (JString ''(''),
                    DisplayPart ''text'' (JString ''watched''),
                    DisplayPart ''punctuation'' (JString '')''),
                    DisplayPart ''space'' (JString '' ''),
                    DisplayPart ''keyword'' (w_prop w)]\<rparr>)
      | Some (ListenerItem l, category) \<Rightarrow>
          Inr (prior\<lparr>displayParts :=
                 concat (map (\<lambda>event. buildStencilDecoratorDisplayParts ''Watch'' event
                                  @ [DisplayPart ''punctuation'' (JString newline)])
                           (l_events l))
                 @ drop 4 (displayParts prior)\<rparr>)
      | Some (NameItem item, category) \<Rightarrow>
          (let prior1 =
             (if category = ''lifecycle''
              then prior\<lparr>documentation := documentation prior
                     @ [DisplayPart ''markdown''
                          (JString (newline @ newline @ ''**Component Lifecycle Method**''
                                     @ to_string (ComponentLifecycleDocs nm)))]\<rparr>
              else prior)
           in Inr (prior1\<lparr>displayParts :=
                     splice 1 1 (buildStencilDisplayParts category) (displayParts prior1)\<rparr>)))"

text \<open>
  The four variables of the detail cache, and a counter of the calls made to the host's
  \<^verbatim>\<open>getCompletionEntryDetails\<close> (the call counter of a test double; not in the source).
\<close>

record detail_cache =
  cachedCompletionEntryDetailsFileName :: "string option"
  cachedCompletionEntryDetailsPosition :: "int option"
  cachedCompletionEntryDetailsNames :: "string list option"
  cachedCompletionEntryDetails :: "string \<rightharpoonup> CompletionEntryDetails"
  hostCalls :: nat

definition initialCache :: detail_cache where
  "initialCache =
     \<lparr>cachedCompletionEntryDetailsFileName = None, cachedCompletionEntryDetailsPosition = None,
      cachedCompletionEntryDetailsNames = None, cachedCompletionEntryDetails = Map.empty,
      hostCalls = 0\<rparr>"

text \<open>
  The \<^verbatim>\<open>else\<close> branch of \<^verbatim>\<open>proxy.getCompletionEntryDetails\<close>: extraction, the host's lookup,
  the decoration, the update of the cache. An exception leaves the cache as it was.
\<close>

definition lookupDetails ::
  "(string \<Rightarrow> source_file option)
   \<Rightarrow> (string \<Rightarrow> int \<Rightarrow> string \<Rightarrow> CompletionEntryDetails option)
   \<Rightarrow> detail_cache \<Rightarrow> string \<Rightarrow> int \<Rightarrow> string
   \<Rightarrow> (error + CompletionEntryDetails option) \<times> detail_cache" where
  "lookupDetails getSourceFile hostDetails s fileName position nm =
     (case gatherMetaOf (getSourceFile fileName) of
        Inl e \<Rightarrow> (Inl e, s)
      | Inr meta \<Rightarrow>
         (let s1 = s\<lparr>hostCalls := hostCalls s + 1\<rparr> in
          case hostDetails fileName position nm of
            None \<Rightarrow> (Inl TypeError, s1)
          | Some prior0 \<Rightarrow>
             (case (if entry_kind prior0 = ''property'' \<or> entry_kind prior0 = ''method''
                    then decorateDetails meta nm prior0 else Inr prior0) of
                Inl e \<Rightarrow> (Inl e, s1)
              | Inr prior \<Rightarrow>
                 (if cachedCompletionEntryDetailsFileName s1 = Some fileName
                     \<and> cachedCompletionEntryDetailsPosition s1 = Some position
                  then (case cachedCompletionEntryDetailsNames s1 of
                          None \<Rightarrow> (Inl TypeError, s1)
                        | Some cachedNames \<Rightarrow>
                           (Inr (Some prior),
                            s1\<lparr>cachedCompletionEntryDetailsNames := Some (cachedNames @ [nm]),
                               cachedCompletionEntryDetails :=
                                 (cachedCompletionEntryDetails s1)(nm \<mapsto> prior)\<rparr>))
                  else (Inr (Some prior),
                        s1\<lparr>cachedCompletionEntryDetailsFileName := Some fileName,
                           cachedCompletionEntryDetailsPosition := Some position,
                           cachedCompletionEntryDetailsNames := Some [nm],
                           cachedCompletionEntryDetails := Map.empty(nm \<mapsto> prior)\<rparr>)))))"

definition getCompletionEntryDetails ::
  "(string \<Rightarrow> source_file option)
   \<Rightarrow> (string \<Rightarrow> int \<Rightarrow> string \<Rightarrow> CompletionEntryDetails option)
   \<Rightarrow> detail_cache \<Rightarrow> string \<Rightarrow> int \<Rightarrow> string
   \<Rightarrow> (error + CompletionEntryDetails option) \<times> detail_cache" where
  "getCompletionEntryDetails getSourceFile hostDetails s fileName position nm =
     (if cachedCompletionEntryDetailsFileName s = Some fileName
         \<and> cachedCompletionEntryDetailsPosition s = Some position
      then (case cachedCompletionEntryDetailsNames s of
              None \<Rightarrow> (Inl TypeError, s)
            | Some cachedNames \<Rightarrow>
               (if nm \<in> set cachedNames
                then (Inr (cachedCompletionEntryDetails s nm), s)
                else lookupDetails getSourceFile hostDetails s fileName position nm))
      else lookupDetails getSourceFile hostDetails s fileName position nm)"


section \<open>A concrete host\<close>

text \<open>
  The display parts of the host for a member: \<^verbatim>\<open>(property) MyComponent.count\<close>.
\<close>

definition hostDisplayParts :: "string \<Rightarrow> string \<Rightarrow> display_part list" where
  "hostDisplayParts knd nm =
     [DisplayPart ''punctuation'' (JString ''(''), DisplayPart ''text'' (JString knd),
      DisplayPart ''punctuation'' (JString '')''), DisplayPart ''space'' (JString '' ''),
      DisplayPart ''className'' (JString ''MyComponent''),
      DisplayPart ''punctuation'' (JString ''.''),
      DisplayPart ''propertyName'' (JString nm)]"

definition exampleHostDetails :: "string \<Rightarrow> int \<Rightarrow> string \<Rightarrow> CompletionEntryDetails option" where
  "exampleHostDetails fileName position nm =
     (if fileName = ''my-component.tsx''
      then Some \<lparr>entry_name = nm, entry_kind = ''property'',
                 displayParts = hostDisplayParts ''property'' nm, documentation = []\<rparr>
      else None)"

definition exampleText :: string where
  "exampleText = ''@State() count; @Prop() label; @Watch('' @ [CHR 0x27] @ ''label'' @ [CHR 0x27]
     @ '') onLabelChange() {}''"

definition exampleSources :: "string \<Rightarrow> source_file option" where
  "exampleSources fileName =
     (if fileName = ''my-component.tsx''
      then Some \<lparr>getText = exampleText, rootNode = exampleComponent\<rparr>
      else None)"

text \<open>
  The cache answers a request for (file, position, name) with \<open>d\<close>: the scope is that
  file and position, the name is among the cached names, and the map holds \<open>d\<close>.
\<close>

definition cachedFor :: "string \<Rightarrow> int \<Rightarrow> string \<Rightarrow> CompletionEntryDetails option \<Rightarrow> detail_cache \<Rightarrow> bool" where
  "cachedFor f p n d s =
     (cachedCompletionEntryDetailsFileName s = Some f
      \<and> cachedCompletionEntryDetailsPosition s = Some p
      \<and> (case cachedCompletionEntryDetailsNames s of None \<Rightarrow> False | Some ns \<Rightarrow> n \<in> set ns)
      \<and> cachedCompletionEntryDetails s n = d)"

section \<open>Find references\<close>

datatype text_span = TextSpan (span_start: int) (span_length: int)

datatype reference_entry =
  ReferenceEntry (textSpan: text_span) (fileName: string) (isDefinition: bool)
    (isWriteAccess: bool) (isInString: bool)

datatype 'd referenced_symbol =
  ReferencedSymbol (symbol_definition: 'd) (references: "reference_entry list")

text \<open>\<^verbatim>\<open>text.indexOf(pattern)\<close> on strings: the first index where the pattern starts, or \<open>-1\<close>.\<close>

fun string_indexOf :: "string \<Rightarrow> string \<Rightarrow> int" where
  "string_indexOf [] pat = (if pat = [] then 0 else -1)"
| "string_indexOf (c # cs) pat =
     (if take (length pat) (c # cs) = pat then 0
      else (let i = string_indexOf cs pat in if i > -1 then i + 1 else -1))"

text \<open>
  The name at the node: \<^verbatim>\<open>node.text\<close> of an identifier, \<^verbatim>\<open>node.name.text\<close> of a property
  declaration named by an identifier, \<^verbatim>\<open>undefined\<close> otherwise.
\<close>

definition nodeText :: "node \<Rightarrow> error + string option" where
  "nodeText n =
     (case kind n of
        Identifier t \<Rightarrow> Inr (Some t)
      | PropertyDeclaration \<Rightarrow>
          (case name n of
             NoName \<Rightarrow> Inl TypeError
           | IdentifierName t \<Rightarrow> Inr (Some t)
           | OtherName \<Rightarrow> Inr None)
      | _ \<Rightarrow> Inr None)"

definition doubleQuote :: char where "doubleQuote = CHR 0x22"
definition singleQuote :: char where "singleQuote = CHR 0x27"

definition quoted :: "char \<Rightarrow> string \<Rightarrow> string" where
  "quoted q t = q # t @ [q]"

text \<open>
  \<^verbatim>\<open>proxy.findReferences\<close>. The helper \<^verbatim>\<open>findNode\<close> of \<^verbatim>\<open>ts-util/index\<close> and the host's own
  \<^verbatim>\<open>findReferences\<close> are parameters. \<^verbatim>\<open>prior.push\<close> raises when the host's list is
  \<^verbatim>\<open>undefined\<close>, \<^verbatim>\<open>prior[0].definition\<close> when it is empty.
\<close>

definition findReferences ::
  "(string \<Rightarrow> source_file option) \<Rightarrow> (source_file \<Rightarrow> int \<Rightarrow> node option)
   \<Rightarrow> (string \<Rightarrow> int \<Rightarrow> 'd referenced_symbol list option)
   \<Rightarrow> string \<Rightarrow> int \<Rightarrow> error + 'd referenced_symbol list option" where
  "findReferences getSourceFile findNode hostReferences file position =
     (case getSourceFile file of
        None \<Rightarrow> Inl TypeError
      | Some sourceFile \<Rightarrow>
     (case gatherDocumentMeta (rootNode sourceFile) of
        Inl e \<Rightarrow> Inl e
      | Inr meta \<Rightarrow>
     (case findNode sourceFile position of
        None \<Rightarrow> Inl TypeError
      | Some nd \<Rightarrow>
     (case nodeText nd of
        Inl e \<Rightarrow> Inl e
      | Inr text \<Rightarrow>
     (let prior = hostReferences file position in
      case text of
        None \<Rightarrow> Inr prior
      | Some t \<Rightarrow>
         if list_ex (\<lambda>w. w_prop w = JString t) (watched meta) then
           (let found0 = string_indexOf (getText sourceFile) (quoted doubleQuote t);
                found = (if \<not> found0 > -1
                         then string_indexOf (getText sourceFile) (quoted singleQuote t)
                         else found0)
            in if found > -1 then
                 (case prior of
                    None \<Rightarrow> Inl TypeError
                  | Some [] \<Rightarrow> Inl TypeError
                  | Some (r # rs) \<Rightarrow>
                      Inr (Some ((r # rs) @
                        [ReferencedSymbol (symbol_definition r)
                           [ReferenceEntry (TextSpan (found + 1) (int (length t))) file
                              False True True]])))
               else Inr prior)
         else Inr prior)))))"

text \<open>
  Occurrences of a pattern in a text: the pattern stands at index \<open>i\<close>; it stands there
  and at no earlier index; it stands somewhere.
\<close>

definition occursAt :: "string \<Rightarrow> string \<Rightarrow> nat \<Rightarrow> bool" where
  "occursAt txt pat i = (i + length pat \<le> length txt \<and> take (length pat) (drop i txt) = pat)"

definition firstOccurrence :: "string \<Rightarrow> string \<Rightarrow> nat \<Rightarrow> bool" where
  "firstOccurrence txt pat i =
     (occursAt txt pat i \<and> list_all (\<lambda>j. \<not> occursAt txt pat j) [0..<i])"

definition contains :: "string \<Rightarrow> string \<Rightarrow> bool" where
  "contains txt pat = list_ex (occursAt txt pat) [0..<Suc (length txt)]"

text \<open>
  \<^verbatim>\<open>@Component({tag}) class MyComponent { @Prop() name; @Watch("name") onNameChange() {} }\<close>,
  with a raw text in which \<^verbatim>\<open>'name'\<close> stands before \<^verbatim>\<open>"name"\<close>.
\<close>

definition exampleWatchedName :: node where
  "exampleWatchedName = source_file_of
     [component_class ''MyComponent''
        [property_decl (Some [decorator_call ''Prop'' []]) ''name'',
         method_decl (Some [decorator_call ''Watch'' [StringLiteral ''name'']]) ''onNameChange'']]"

definition exampleWatchedText :: string where
  "exampleWatchedText =
     ''x = '' @ quoted singleQuote ''name'' @ ''; @Watch('' @ quoted doubleQuote ''name''
       @ '') onNameChange() {}''"

definition exampleWatchedSources :: "string \<Rightarrow> source_file option" where
  "exampleWatchedSources file =
     (if file = ''my-component.tsx''
      then Some \<lparr>getText = exampleWatchedText, rootNode = exampleWatchedName\<rparr>
      else None)"

definition exampleFindNode :: "source_file \<Rightarrow> int \<Rightarrow> node option" where
  "exampleFindNode sourceFile position =
     (if position = 60 then Some (Node (Identifier ''name'') None NoName [] [])
      else Some (Node (Identifier ''onNameChange'') None NoName [] []))"

definition exampleHostReferences :: "string \<Rightarrow> int \<Rightarrow> string referenced_symbol list option" where
  "exampleHostReferences file position =
     Some [ReferencedSymbol ''name''
             [ReferenceEntry (TextSpan 60 4) file True True False]]"

definition exampleNoReferences :: "string \<Rightarrow> int \<Rightarrow> string referenced_symbol list option" where
  "exampleNoReferences file position = Some []"

section \<open>Extraction: traversal and buckets\<close>

lemma forEach_append:
  "forEach f (xs @ ys) s = (case forEach f xs s of Inl e \<Rightarrow> Inl e | Inr s' \<Rightarrow> forEach f ys s')"
  by (induction xs arbitrary: s) (auto split: sum.splits)

lemma visit_forEach:
  "visit n meta = forEach processClass (componentClasses n) meta"
  "forEachChild ns meta = forEach processClass (componentClassesOf ns) meta"
proof (induction n meta and ns meta rule: visit_forEachChild.induct)
  case (1 k ds nm ms cs meta)
  then show ?case by (simp add: forEach_append split: sum.splits)
next
  case (2 meta)
  then show ?case by simp
next
  case (3 n ns meta)
  then show ?case by (simp add: forEach_append split: sum.splits)
qed

lemma hasDecoratorNamed_None: "decorators x = None \<Longrightarrow> \<not> hasDecoratorNamed x r"
  by (simp add: hasDecoratorNamed_def)

lemma names_processUndecorated:
  "decorators x = None \<Longrightarrow>
   names b (processUndecorated x meta) = names b meta @ (if placedIn b x then [toName x] else [])"
  by (cases b) (simp_all add: processUndecorated_def hasDecoratorNamed_None)

lemma names_fold_processUndecorated:
  "\<forall>x\<in>set xs. decorators x = None \<Longrightarrow>
   names b (fold processUndecorated xs meta) = names b meta @ map toName (filter (placedIn b) xs)"
  by (induction xs arbitrary: meta) (simp_all add: names_processUndecorated)

lemma names_pushWatched:
  "pushWatched x meta = Inr meta' \<Longrightarrow>
   names b meta' = names b meta @ (if b = Watched \<and> hasDecoratorNamed x ''Watch'' then [toName x] else [])"
  by (cases b) (auto simp: pushWatched_def split: if_splits option.splits sum.splits)

lemma names_pushListeners:
  "pushListeners x meta = Inr meta' \<Longrightarrow>
   names b meta' = names b meta @ (if b = Listeners \<and> hasDecoratorNamed x ''Listen'' then [toName x] else [])"
  by (cases b) (auto simp: pushListeners_def split: if_splits option.splits sum.splits)

lemma names_processDecorated:
  assumes "processDecorated x meta = Inr meta'" and "decorators x \<noteq> None"
  shows "names b meta' = names b meta @ (if placedIn b x then [toName x] else [])"
proof -
  define m1 where "m1 = (if hasDecoratorNamed x ''Element''
                then meta\<lparr>elements := elements meta @ [toName x]\<rparr> else meta)"
  define m2 where "m2 = (if hasDecoratorNamed x ''State''
                then m1\<lparr>states := states m1 @ [toName x]\<rparr> else m1)"
  from assms(1) obtain m3 m4 where w: "pushWatched x m2 = Inr m3"
    and l: "pushListeners x m3 = Inr m4"
    and r: "meta' = (let m5 = (if hasDecoratorNamed x ''Event''
                           then m4\<lparr>events := events m4 @ [toName x]\<rparr> else m4);
                     m6 = (if hasDecoratorNamed x ''Method''
                           then m5\<lparr>methods := methods m5 @ [toName x]\<rparr> else m5);
                     m7 = (if hasDecoratorNamed x ''Prop''
                           then m6\<lparr>props := props m6 @ [toName x]\<rparr> else m6)
                 in m7)"
    unfolding processDecorated_def m1_def m2_def Let_def
    by (auto split: sum.splits)
  have 1: "names b m1 = names b meta @ (if b = Elements \<and> hasDecoratorNamed x ''Element'' then [toName x] else [])"
    unfolding m1_def by (cases b) simp_all
  have 2: "names b m2 = names b m1 @ (if b = States \<and> hasDecoratorNamed x ''State'' then [toName x] else [])"
    unfolding m2_def by (cases b) simp_all
  note 3 = names_pushWatched[OF w, of b] and 4 = names_pushListeners[OF l, of b]
  have 5: "names b meta' = names b m4 @ (if placedIn b x \<and> b \<in> {Events, Methods, Props} then [toName x] else [])"
    unfolding r Let_def by (cases b) simp_all
  from assms(2) show ?thesis
    unfolding 5 4 3 2 1 by (cases b) auto
qed

lemma names_forEach_processDecorated:
  "forEach processDecorated xs meta = Inr meta' \<Longrightarrow> \<forall>x\<in>set xs. decorators x \<noteq> None \<Longrightarrow>
   names b meta' = names b meta @ map toName (filter (placedIn b) xs)"
proof (induction xs arbitrary: meta)
  case Nil
  then show ?case by simp
next
  case (Cons x xs)
  from Cons.prems(1) obtain m where m: "processDecorated x meta = Inr m"
    and rest: "forEach processDecorated xs m = Inr meta'"
    by (auto split: sum.splits)
  from Cons.prems(2) have "decorators x \<noteq> None" by simp
  from names_processDecorated[OF m this, of b] Cons.IH[OF rest] Cons.prems(2)
  show ?case by simp
qed

lemma placedIn_decorated:
  "filter (placedIn b) (filter (\<lambda>x. decorators x = None) xs)
    @ filter (placedIn b) (filter (\<lambda>x. decorators x \<noteq> None) xs) = filter (placedIn b) xs"
proof (induction xs)
  case Nil
  then show ?case by simp
next
  case (Cons x xs)
  show ?case
  proof (cases "decorators x = None")
    case True
    then show ?thesis using Cons by simp
  next
    case False
    then have "\<not> placedIn b x \<or> b \<notin> {InternalProperties, InternalMethods, Lifecycle}"
      by (cases b) simp_all
    moreover have "b \<in> {InternalProperties, InternalMethods, Lifecycle} \<Longrightarrow>
       filter (placedIn b) (filter (\<lambda>x. decorators x \<noteq> None) ys) = []" for ys
      by (cases b) (auto simp: filter_empty_conv)
    moreover have "b \<notin> {InternalProperties, InternalMethods, Lifecycle} \<Longrightarrow>
       filter (placedIn b) (filter (\<lambda>x. decorators x = None) ys) = []" for ys
      by (cases b) (auto simp: filter_empty_conv hasDecoratorNamed_None)
    ultimately show ?thesis using Cons False
      by (cases "b \<in> {InternalProperties, InternalMethods, Lifecycle}") auto
  qed
qed

lemma names_processClass:
  assumes "processClass c meta = Inr meta'"
  shows "names b meta' = names b meta @ map toName (filter (placedIn b) (members c))"
proof -
  let ?u = "filter (\<lambda>member. decorators member = None) (members c)"
  let ?d = "filter (\<lambda>member. decorators member \<noteq> None) (members c)"
  let ?m1 = "meta\<lparr>className := toName c\<rparr>"
  from assms have d: "forEach processDecorated ?d (fold processUndecorated ?u ?m1) = Inr meta'"
    by (auto simp: processClass_def Let_def split: declaration_name.splits)
  have 0: "names b ?m1 = names b meta" by (cases b) simp_all
  have "names b meta' = (names b meta @ map toName (filter (placedIn b) ?u))
          @ map toName (filter (placedIn b) ?d)"
    using names_forEach_processDecorated[OF d, of b]
    by (simp add: names_fold_processUndecorated 0)
  then show ?thesis
    using placedIn_decorated[of b "members c"] by (metis append_assoc map_append)
qed

lemma names_forEach_processClass:
  "forEach processClass cs meta = Inr meta' \<Longrightarrow>
   names b meta' = names b meta @ map toName (filter (placedIn b) (concat (map members cs)))"
proof (induction cs arbitrary: meta)
  case Nil
  then show ?case by simp
next
  case (Cons c cs)
  from Cons.prems obtain m where m: "processClass c meta = Inr m"
    and rest: "forEach processClass cs m = Inr meta'"
    by (auto split: sum.splits)
  show ?case using names_processClass[OF m, of b] Cons.IH[OF rest] by simp
qed

lemma names_emptyMeta: "names b emptyMeta = []"
  by (cases b) (simp_all add: emptyMeta_def)

lemma names_gatherDocumentMeta:
  "gatherDocumentMeta t = Inr m \<Longrightarrow> names b m = map toName (filter (placedIn b) (classMembers t))"
  using names_forEach_processClass[of "componentClasses t" emptyMeta m b]
  by (simp add: gatherDocumentMeta_def visit_forEach classMembers_def names_emptyMeta)

section \<open>Extraction: Watch and Listen entries\<close>

lemma firstArgumentText_present:
  "hasFirstArgument d \<Longrightarrow> firstArgumentText d = Inr (argumentText d)"
  by (induction d rule: firstArgumentText.induct) simp_all

lemma mapArgumentTexts_present:
  "list_all hasFirstArgument ds \<Longrightarrow> mapArgumentTexts ds = Inr (map argumentText ds)"
  by (induction ds) (simp_all add: firstArgumentText_present)

lemma find_isCallNamed:
  "list_ex P ds \<Longrightarrow> \<exists>d. List.find P ds = Some d \<and> d \<in> set ds \<and> P d"
  by (induction ds) auto

lemma pushWatched_present:
  assumes "argumentsPresent x"
  shows "pushWatched x meta =
    Inr (if hasDecoratorNamed x ''Watch''
         then meta\<lparr>watched := watched meta @ [watchedEntry x]\<rparr> else meta)"
proof (cases "hasDecoratorNamed x ''Watch''")
  case False
  then show ?thesis by (simp add: pushWatched_def)
next
  case True
  then obtain ds where ds: "decorators x = Some ds" and ex: "list_ex (isCallNamed ''Watch'') ds"
    by (auto simp: hasDecoratorNamed_def split: option.splits)
  from find_isCallNamed[OF ex] obtain d where d: "List.find (isCallNamed ''Watch'') ds = Some d"
    "d \<in> set ds" "isCallNamed ''Watch'' d" by blast
  with assms ds have "hasFirstArgument d"
    by (auto simp: argumentsPresent_def list_all_iff)
  then show ?thesis using True ds d
    by (simp add: pushWatched_def watchedEntry_def firstArgumentText_present)
qed

lemma pushListeners_present:
  assumes "argumentsPresent x"
  shows "pushListeners x meta =
    Inr (if hasDecoratorNamed x ''Listen''
         then meta\<lparr>listeners := listeners meta @ [listenerEntry x]\<rparr> else meta)"
proof (cases "hasDecoratorNamed x ''Listen''")
  case False
  then show ?thesis by (simp add: pushListeners_def)
next
  case True
  then obtain ds where ds: "decorators x = Some ds"
    by (auto simp: hasDecoratorNamed_def split: option.splits)
  with assms have "list_all hasFirstArgument (filter (isCallNamed ''Listen'') ds)"
    by (auto simp: argumentsPresent_def list_all_iff)
  then show ?thesis using True ds
    by (simp add: pushListeners_def listenerEntry_def mapArgumentTexts_present)
qed

lemma processDecorated_present:
  assumes "argumentsPresent x"
  shows "\<exists>meta'. processDecorated x meta = Inr meta'
     \<and> watched meta' = watched meta @ (if hasDecoratorNamed x ''Watch'' then [watchedEntry x] else [])
     \<and> listeners meta' = listeners meta @ (if hasDecoratorNamed x ''Listen'' then [listenerEntry x] else [])"
  unfolding processDecorated_def Let_def
  by (simp add: pushWatched_present[OF assms] pushListeners_present[OF assms])

lemma forEach_processDecorated_present:
  "list_all argumentsPresent xs \<Longrightarrow>
   \<exists>meta'. forEach processDecorated xs meta = Inr meta'
     \<and> watched meta' = watched meta @ map watchedEntry (filter (\<lambda>x. hasDecoratorNamed x ''Watch'') xs)
     \<and> listeners meta' = listeners meta @ map listenerEntry (filter (\<lambda>x. hasDecoratorNamed x ''Listen'') xs)"
proof (induction xs arbitrary: meta)
  case Nil
  then show ?case by simp
next
  case (Cons x xs)
  then have x: "argumentsPresent x" and xs: "list_all argumentsPresent xs" by simp_all
  from processDecorated_present[OF x, of meta] obtain m where
    m: "processDecorated x meta = Inr m"
    "watched m = watched meta @ (if hasDecoratorNamed x ''Watch'' then [watchedEntry x] else [])"
    "listeners m = listeners meta @ (if hasDecoratorNamed x ''Listen'' then [listenerEntry x] else [])"
    by blast
  from Cons.IH[OF xs, of m] m show ?case by auto
qed

lemma watched_fold_processUndecorated:
  "watched (fold processUndecorated xs meta) = watched meta"
  "listeners (fold processUndecorated xs meta) = listeners meta"
  by (induction xs arbitrary: meta) (simp_all add: processUndecorated_def)

lemma filter_decorated_role:
  "filter (\<lambda>x. hasDecoratorNamed x r) (filter (\<lambda>x. decorators x \<noteq> None) xs)
     = filter (\<lambda>x. hasDecoratorNamed x r) xs"
  by (induction xs) (auto simp: hasDecoratorNamed_def)

lemma processClass_present:
  assumes "name c \<noteq> NoName" and "list_all argumentsPresent (members c)"
  shows "\<exists>meta'. processClass c meta = Inr meta'
     \<and> watched meta' = watched meta @ map watchedEntry (filter (\<lambda>x. hasDecoratorNamed x ''Watch'') (members c))
     \<and> listeners meta' = listeners meta @ map listenerEntry (filter (\<lambda>x. hasDecoratorNamed x ''Listen'') (members c))"
proof -
  let ?d = "filter (\<lambda>member. decorators member \<noteq> None) (members c)"
  let ?m2 = "fold processUndecorated (filter (\<lambda>member. decorators member = None) (members c))
               (meta\<lparr>className := toName c\<rparr>)"
  from assms(2) have "list_all argumentsPresent ?d" by (simp add: list_all_iff)
  from forEach_processDecorated_present[OF this, of ?m2] obtain meta' where
    m: "forEach processDecorated ?d ?m2 = Inr meta'"
    "watched meta' = watched ?m2 @ map watchedEntry (filter (\<lambda>x. hasDecoratorNamed x ''Watch'') ?d)"
    "listeners meta' = listeners ?m2 @ map listenerEntry (filter (\<lambda>x. hasDecoratorNamed x ''Listen'') ?d)"
    by blast
  from assms(1) m(1) have "processClass c meta = Inr meta'"
    by (cases "name c") (simp_all add: processClass_def Let_def)
  moreover have "watched ?m2 = watched meta" "listeners ?m2 = listeners meta"
    by (simp_all add: watched_fold_processUndecorated)
  ultimately show ?thesis
    using m(2,3) unfolding filter_decorated_role by simp
qed

lemma forEach_processClass_present:
  "list_all (\<lambda>c. name c \<noteq> NoName) cs \<Longrightarrow> list_all argumentsPresent (concat (map members cs)) \<Longrightarrow>
   \<exists>meta'. forEach processClass cs meta = Inr meta'
     \<and> watched meta' = watched meta
          @ map watchedEntry (filter (\<lambda>x. hasDecoratorNamed x ''Watch'') (concat (map members cs)))
     \<and> listeners meta' = listeners meta
          @ map listenerEntry (filter (\<lambda>x. hasDecoratorNamed x ''Listen'') (concat (map members cs)))"
proof (induction cs arbitrary: meta)
  case Nil
  then show ?case by simp
next
  case (Cons c cs)
  then have c: "name c \<noteq> NoName" "list_all argumentsPresent (members c)"
    and cs: "list_all (\<lambda>c. name c \<noteq> NoName) cs" "list_all argumentsPresent (concat (map members cs))"
    by simp_all
  from processClass_present[OF c, of meta] obtain m where
    m: "processClass c meta = Inr m"
    "watched m = watched meta @ map watchedEntry (filter (\<lambda>x. hasDecoratorNamed x ''Watch'') (members c))"
    "listeners m = listeners meta @ map listenerEntry (filter (\<lambda>x. hasDecoratorNamed x ''Listen'') (members c))"
    by blast
  from Cons.IH[OF cs, of m] m show ?case by auto
qed

section \<open>Placement of member names (C1)\<close>

lemma length_filter_le_one:
  "distinct xs \<Longrightarrow> (\<And>a b. a \<in> set xs \<Longrightarrow> b \<in> set xs \<Longrightarrow> P a \<Longrightarrow> P b \<Longrightarrow> a = b) \<Longrightarrow>
   length (filter P xs) \<le> Suc 0"
proof (induction xs)
  case Nil
  then show ?case by simp
next
  case (Cons x xs)
  show ?case
  proof (cases "P x")
    case True
    have "filter P xs = []"
      unfolding filter_empty_conv
    proof
      fix y assume y: "y \<in> set xs"
      show "\<not> P y"
      proof
        assume "P y"
        with Cons.prems(2)[of x y] True y have "x = y" by simp
        with Cons.prems(1) y show False by simp
      qed
    qed
    with True show ?thesis by simp
  next
    case False
    with Cons show ?thesis by simp
  qed
qed

lemma placedIn_exclusive:
  assumes "roleCount x \<le> 1" and "placedIn b1 x" and "placedIn b2 x"
  shows "b1 = b2"
proof (cases "decorators x = None")
  case True
  with assms(2,3) show ?thesis
    by (cases b1; cases b2) (simp_all add: hasDecoratorNamed_None)
next
  case False
  with assms show ?thesis
    by (cases b1; cases b2) (simp_all add: roleCount_def roleNames_def split: if_splits)
qed

lemma member_names_gather:
  assumes "gatherDocumentMeta t = Inr m" and "distinct (map toName (classMembers t))"
    and "v \<in> set (names b m)"
  shows "\<exists>x\<in>set (classMembers t). toName x = v \<and> placedIn b x"
  using assms(3) names_gatherDocumentMeta[OF assms(1), of b]
  by auto

lemma names_exclusive:
  assumes g: "gatherDocumentMeta t = Inr m" and d: "distinct (map toName (classMembers t))"
    and one: "\<forall>x\<in>set (classMembers t). roleCount x \<le> 1"
    and b1: "v \<in> set (names b1 m)" and b2: "v \<in> set (names b2 m)"
  shows "b1 = b2"
proof -
  from member_names_gather[OF g d b1] obtain x where
    x: "x \<in> set (classMembers t)" "toName x = v" "placedIn b1 x" by blast
  from member_names_gather[OF g d b2] obtain y where
    y: "y \<in> set (classMembers t)" "toName y = v" "placedIn b2 y" by blast
  from d x(1,2) y(1,2) have "x = y"
    by (metis distinct_map inj_onD)
  moreover from one y(1) have "roleCount y \<le> 1" by blast
  ultimately show ?thesis using x(3) y(3) placedIn_exclusive[of y b1 b2] by simp
qed

lemma occurrences_le_one:
  assumes g: "gatherDocumentMeta t = Inr m" and d: "distinct (map toName (classMembers t))"
    and one: "\<forall>x\<in>set (classMembers t). roleCount x \<le> 1"
  shows "occurrences m v \<le> 1"
  unfolding occurrences_def One_nat_def
proof (rule length_filter_le_one)
  show "distinct placementBuckets" by (simp add: placementBuckets_def)
next
  fix a b assume "v \<in> set (names a m)" "v \<in> set (names b m)"
  then show "a = b" by (rule names_exclusive[OF g d one])
qed

lemma occurrences_zero:
  assumes ex: "\<And>b. v \<in> set (names b m) \<Longrightarrow> a = b" and a: "a \<notin> set placementBuckets"
  shows "occurrences m v = 0"
proof -
  have "\<forall>b\<in>set placementBuckets. v \<notin> set (names b m)"
  proof
    fix b assume b: "b \<in> set placementBuckets"
    show "v \<notin> set (names b m)"
    proof
      assume "v \<in> set (names b m)"
      then have "a = b" by (rule ex)
      with a b show False by simp
    qed
  qed
  then have "filter (\<lambda>b. v \<in> set (names b m)) placementBuckets = []"
    unfolding filter_empty_conv by blast
  then show ?thesis unfolding occurrences_def by simp
qed

text \<open>
  Claim C1, as amended. When extraction returns a model, the members of the processed
  component classes have pairwise distinct names, and each member carries at most one of
  the seven recognized role annotations, then every name appears in at most one of the
  nine buckets internalProperties, internalMethods, elements, states, props, propsConnect,
  propsContext, methods, lifecycle; and the name of a watch handler (of a listen handler)
  appears in none of the nine, nor in events, nor among the handlers of the other kind.
\<close>

theorem C1_amended:
  assumes g: "gatherDocumentMeta t = Inr m"
    and d: "distinct (map toName (classMembers t))"
    and one: "\<forall>x\<in>set (classMembers t). roleCount x \<le> 1"
  shows "occurrences m v \<le> 1
     \<and> (v \<in> set (map w_handler (watched m)) \<longrightarrow>
          occurrences m v = 0 \<and> v \<notin> set (events m) \<and> v \<notin> set (map l_handler (listeners m)))
     \<and> (v \<in> set (map l_handler (listeners m)) \<longrightarrow>
          occurrences m v = 0 \<and> v \<notin> set (events m) \<and> v \<notin> set (map w_handler (watched m)))"
proof -
  have ex: "a = b" if "v \<in> set (names a m)" "v \<in> set (names b m)" for a b
    using that by (rule names_exclusive[OF g d one])
  have nW: "Watched \<notin> set placementBuckets" and nL: "Listeners \<notin> set placementBuckets"
    by (simp_all add: placementBuckets_def)
  have w: "occurrences m v = 0 \<and> v \<notin> set (names Events m) \<and> v \<notin> set (names Listeners m)"
    if a: "v \<in> set (names Watched m)"
  proof (intro conjI)
    show "occurrences m v = 0" by (rule occurrences_zero[OF ex[OF a] nW])
    show "v \<notin> set (names Events m)" using ex[OF a, of Events] by blast
    show "v \<notin> set (names Listeners m)" using ex[OF a, of Listeners] by blast
  qed
  have l: "occurrences m v = 0 \<and> v \<notin> set (names Events m) \<and> v \<notin> set (names Watched m)"
    if a: "v \<in> set (names Listeners m)"
  proof (intro conjI)
    show "occurrences m v = 0" by (rule occurrences_zero[OF ex[OF a] nL])
    show "v \<notin> set (names Events m)" using ex[OF a, of Events] by blast
    show "v \<notin> set (names Watched m)" using ex[OF a, of Watched] by blast
  qed
  have "occurrences m v \<le> 1
     \<and> (v \<in> set (names Watched m) \<longrightarrow>
          occurrences m v = 0 \<and> v \<notin> set (names Events m) \<and> v \<notin> set (names Listeners m))
     \<and> (v \<in> set (names Listeners m) \<longrightarrow>
          occurrences m v = 0 \<and> v \<notin> set (names Events m) \<and> v \<notin> set (names Watched m))"
    using occurrences_le_one[OF g d one] w l by blast
  then show ?thesis unfolding names.simps .
qed

lemma gather_exampleComponent:
  "gatherDocumentMeta exampleComponent =
     Inr \<lparr>className = JString ''MyComponent'', internalProperties = [JString ''total''],
          elements = [], states = [JString ''count''], propsConnect = [], propsContext = [],
          props = [JString ''label''],
          watched = [Watcher (JString ''label'') (JString ''onLabelChange'')], events = [],
          lifecycle = [JString ''componentDidLoad''],
          listeners = [Listener [JString ''click'', JString ''keydown''] (JString ''onKey'')],
          methods = [], internalMethods = [JString ''helper'']\<rparr>"
  by code_simp

lemma classMembers_exampleComponent:
  "classMembers exampleComponent =
        [property_decl (Some [decorator_call ''State'' []]) ''count'',
         property_decl (Some [decorator_call ''Prop'' []]) ''label'',
         method_decl (Some [decorator_call ''Watch'' [StringLiteral ''label'']]) ''onLabelChange'',
         method_decl (Some [decorator_call ''Listen'' [StringLiteral ''click''],
                            decorator_call ''Listen'' [StringLiteral ''keydown'']]) ''onKey'',
         method_decl None ''componentDidLoad'',
         method_decl None ''render'',
         method_decl None ''helper'',
         property_decl None ''total'']"
  by code_simp

text \<open>
  The amended claim at the example component: \<^verbatim>\<open>onLabelChange\<close> is a watch handler,
  \<^verbatim>\<open>onKey\<close> a listen handler, and each is in no other bucket.
\<close>

theorem C1_amended_witness:
  "distinct (map toName (classMembers exampleComponent))
   \<and> list_all (\<lambda>x. roleCount x \<le> 1) (classMembers exampleComponent)
   \<and> (\<exists>m. gatherDocumentMeta exampleComponent = Inr m
        \<and> JString ''onLabelChange'' \<in> set (map w_handler (watched m))
        \<and> occurrences m (JString ''onLabelChange'') = 0
        \<and> JString ''onLabelChange'' \<notin> set (events m)
        \<and> JString ''onLabelChange'' \<notin> set (map l_handler (listeners m))
        \<and> JString ''onKey'' \<in> set (map l_handler (listeners m))
        \<and> occurrences m (JString ''onKey'') = 0
        \<and> JString ''onKey'' \<notin> set (events m)
        \<and> JString ''onKey'' \<notin> set (map w_handler (watched m)))"
proof -
  have d: "distinct (map toName (classMembers exampleComponent))"
    by (simp add: classMembers_exampleComponent toName_def property_decl_def method_decl_def)
  have one: "\<forall>x\<in>set (classMembers exampleComponent). roleCount x \<le> 1"
    by (simp add: classMembers_exampleComponent roleCount_def roleNames_def hasDecoratorNamed_def
        property_decl_def method_decl_def decorator_call_def)
  note g = gather_exampleComponent
  obtain m where m: "gatherDocumentMeta exampleComponent = Inr m"
    and w: "JString ''onLabelChange'' \<in> set (map w_handler (watched m))"
    and l: "JString ''onKey'' \<in> set (map l_handler (listeners m))"
    using g by simp
  from C1_amended[OF m d one, of "JString ''onLabelChange''"] w
  have 1: "occurrences m (JString ''onLabelChange'') = 0
        \<and> JString ''onLabelChange'' \<notin> set (events m)
        \<and> JString ''onLabelChange'' \<notin> set (map l_handler (listeners m))"
    by blast
  from C1_amended[OF m d one, of "JString ''onKey''"] l
  have 2: "occurrences m (JString ''onKey'') = 0
        \<and> JString ''onKey'' \<notin> set (events m)
        \<and> JString ''onKey'' \<notin> set (map w_handler (watched m))"
    by blast
  from one have "list_all (\<lambda>x. roleCount x \<le> 1) (classMembers exampleComponent)"
    by (simp add: list_all_iff)
  with d m w l 1 2 show ?thesis by blast
qed

text \<open>
  Claim C1 as stated fails: the tests of \<^verbatim>\<open>decorated.forEach\<close> are independent, so a member
  annotated \<^verbatim>\<open>@State() @Prop()\<close> is pushed to both \<^verbatim>\<open>states\<close> and \<^verbatim>\<open>props\<close>.
\<close>

theorem C1_counterexample:
  "map_sum id (\<lambda>m. occurrences m (JString ''x'')) (gatherDocumentMeta exampleTwoRoles) = Inr 2"
  by code_simp

section \<open>Roles that are never populated (C2)\<close>

lemma propsConnect_empty:
  assumes "gatherDocumentMeta t = Inr m"
  shows "propsConnect m = [] \<and> propsContext m = []"
  using names_gatherDocumentMeta[OF assms, of PropsConnect]
    names_gatherDocumentMeta[OF assms, of PropsContext]
  by simp

text \<open>
  Claim C2 at a member annotated \<^verbatim>\<open>@Prop({ connect: 'ion-alert-controller' })\<close>: its name is
  pushed to \<^verbatim>\<open>props\<close> only; \<^verbatim>\<open>propsConnect\<close> and \<^verbatim>\<open>propsContext\<close> stay empty, although
  \<^verbatim>\<open>getCategory\<close> and \<^verbatim>\<open>getSortText\<close> read them.
\<close>

theorem C2_propsConnect_not_populated:
  "map_sum id (\<lambda>m. (propsConnect m, propsContext m, props m)) (gatherDocumentMeta exampleConnect)
     = Inr ([], [], [JString ''alertCtrl''])"
  by code_simp

section \<open>Every component class is processed (C3)\<close>

text \<open>
  Claim C3, as amended. Extraction performs the member processing at every class carrying
  the component annotation, in depth-first pre-order, each on the model left by the one
  before (the buckets accumulate, \<^verbatim>\<open>className\<close> is overwritten); nodes that are not
  component classes contribute nothing and do not stop the traversal.
\<close>

theorem C3_amended:
  "gatherDocumentMeta t = forEach processClass (componentClasses t) emptyMeta"
  by (simp add: gatherDocumentMeta_def visit_forEach(1))

text \<open>The amended claim at a file with two component classes.\<close>

theorem C3_amended_witness:
  "gatherDocumentMeta exampleTwoComponents =
     forEach processClass
       [component_class ''A'' [property_decl (Some [decorator_call ''State'' []]) ''a''],
        component_class ''B'' [property_decl (Some [decorator_call ''State'' []]) ''b'']]
       emptyMeta"
proof -
  have "componentClasses exampleTwoComponents =
       [component_class ''A'' [property_decl (Some [decorator_call ''State'' []]) ''a''],
        component_class ''B'' [property_decl (Some [decorator_call ''State'' []]) ''b'']]"
    by code_simp
  with C3_amended[of exampleTwoComponents] show ?thesis by simp
qed

text \<open>
  Claim C3 as stated fails: the member of the second component class is processed too,
  and the class name is the second one's.
\<close>

theorem C3_counterexample:
  "gatherDocumentMeta exampleTwoComponents =
     Inr (emptyMeta\<lparr>className := JString ''B'', states := [JString ''a'', JString ''b'']\<rparr>)"
  by code_simp

section \<open>Watch and Listen annotations without a string literal (C4)\<close>

lemma gather_exampleWatchNoArgument:
  "gatherDocumentMeta exampleWatchNoArgument = Inl TypeError"
  by code_simp

lemma watchedEntry_not_literal:
  assumes "decorators x = Some ds" and "List.find (isCallNamed ''Watch'') ds = Some d"
    and "argumentText d = JFalse"
  shows "watchedEntry x = Watcher JFalse (toName x)"
  using assms by (simp add: watchedEntry_def)

text \<open>
  Claim C4, as amended. When every processed component class is named and every Watch and
  Listen annotation of their members has a first argument, extraction does not throw and
  produces the model; each member annotated with Watch contributes one watched entry and
  each member annotated with Listen one listeners entry, in which an argument that is not
  a string literal shows as \<^verbatim>\<open>false\<close> instead of being left out.
\<close>

theorem C4_amended:
  assumes "list_all (\<lambda>c. name c \<noteq> NoName) (componentClasses t)"
    and "list_all argumentsPresent (classMembers t)"
  shows "\<exists>m. gatherDocumentMeta t = Inr m
     \<and> watched m = map watchedEntry (filter (\<lambda>x. hasDecoratorNamed x ''Watch'') (classMembers t))
     \<and> listeners m = map listenerEntry (filter (\<lambda>x. hasDecoratorNamed x ''Listen'') (classMembers t))"
proof -
  from assms(2) have "list_all argumentsPresent (concat (map members (componentClasses t)))"
    by (simp add: classMembers_def)
  from forEach_processClass_present[OF assms(1) this, of emptyMeta]
  show ?thesis
    by (simp add: gatherDocumentMeta_def visit_forEach(1) classMembers_def emptyMeta_def)
qed

theorem C4_amended_witness:
  "list_all (\<lambda>c. name c \<noteq> NoName) (componentClasses exampleWatchNonLiteral)
   \<and> list_all argumentsPresent (classMembers exampleWatchNonLiteral)
   \<and> (\<exists>m. gatherDocumentMeta exampleWatchNonLiteral = Inr m
        \<and> watched m = [Watcher JFalse (JString ''onChange'')] \<and> listeners m = []
        \<and> states m = [JString ''count''])"
proof -
  have n: "list_all (\<lambda>c. name c \<noteq> NoName) (componentClasses exampleWatchNonLiteral)"
    by code_simp
  have a: "list_all argumentsPresent (classMembers exampleWatchNonLiteral)"
    by code_simp
  have w: "map watchedEntry (filter (\<lambda>x. hasDecoratorNamed x ''Watch'') (classMembers exampleWatchNonLiteral))
       = [Watcher JFalse (JString ''onChange'')]"
    by code_simp
  have l: "map listenerEntry (filter (\<lambda>x. hasDecoratorNamed x ''Listen'') (classMembers exampleWatchNonLiteral))
       = []"
    by code_simp
  from C4_amended[OF n a] obtain m where m: "gatherDocumentMeta exampleWatchNonLiteral = Inr m"
    "watched m = [Watcher JFalse (JString ''onChange'')]" "listeners m = []"
    unfolding w l by blast
  have "gatherDocumentMeta exampleWatchNonLiteral =
     Inr (emptyMeta\<lparr>className := JString ''MyComponent'', states := [JString ''count''],
            watched := [Watcher JFalse (JString ''onChange'')]\<rparr>)"
    by code_simp
  with m(1) have "states m = [JString ''count'']" by auto
  with n a m show ?thesis by blast
qed

text \<open>
  Claim C4 as stated fails: \<^verbatim>\<open>@Watch(PROP_NAME)\<close>, whose argument is not a string literal,
  does contribute a watched entry, with \<^verbatim>\<open>false\<close> as the observed property.
\<close>

theorem C4_counterexample:
  "gatherDocumentMeta exampleWatchNonLiteral =
     Inr (emptyMeta\<lparr>className := JString ''MyComponent'', states := [JString ''count''],
            watched := [Watcher JFalse (JString ''onChange'')]\<rparr>)"
  by code_simp

section \<open>Members with foreign decorators only (C10)\<close>

lemma placedIn_no_role:
  assumes "decorators x = Some ds" and "roleCount x = 0"
  shows "\<not> placedIn b x"
  using assms by (cases b) (simp_all add: roleCount_def roleNames_def split: if_splits)

lemma filter_removeAll_unplaced:
  "\<not> P x \<Longrightarrow> filter P (removeAll x xs) = filter P xs"
  by (induction xs) auto

text \<open>
  Claim C10, as amended. A member of a processed component class that carries at least
  one decorator and none of the seven recognized role annotations contributes to no
  bucket: every bucket holds exactly what the other members put there. So the member's
  name is in no bucket when no other member of the processed classes has that name, and
  internalProperties, internalMethods and lifecycle receive only names of members without
  decorators.
\<close>

theorem C10_amended:
  assumes g: "gatherDocumentMeta t = Inr m"
    and x: "x \<in> set (classMembers t)"
    and ds: "decorators x = Some ds" "ds \<noteq> []"
    and nr: "roleCount x = 0"
  shows "names b m = map toName (filter (placedIn b) (removeAll x (classMembers t)))
     \<and> ((\<forall>y\<in>set (classMembers t). toName y = toName x \<longrightarrow> y = x)
          \<longrightarrow> toName x \<notin> set (names b m))
     \<and> (v \<in> set (internalProperties m) \<union> set (internalMethods m) \<union> set (lifecycle m)
          \<longrightarrow> (\<exists>y\<in>set (classMembers t). toName y = v \<and> decorators y = None))"
proof (intro conjI impI)
  have np: "\<not> placedIn b x" for b by (rule placedIn_no_role[OF ds(1) nr])
  show 1: "names b m = map toName (filter (placedIn b) (removeAll x (classMembers t)))"
    using filter_removeAll_unplaced[of "placedIn b" x "classMembers t"] np[of b]
    by (simp add: names_gatherDocumentMeta[OF g])
  show "toName x \<notin> set (names b m)"
    if u: "\<forall>y\<in>set (classMembers t). toName y = toName x \<longrightarrow> y = x"
  proof
    assume "toName x \<in> set (names b m)"
    then obtain y where y: "y \<in> set (classMembers t)" "placedIn b y" "toName y = toName x"
      unfolding names_gatherDocumentMeta[OF g] by auto
    with u have "y = x" by blast
    with y(2) np show False by simp
  qed
  show "\<exists>y\<in>set (classMembers t). toName y = v \<and> decorators y = None"
    if v: "v \<in> set (internalProperties m) \<union> set (internalMethods m) \<union> set (lifecycle m)"
  proof -
    from v have "v \<in> set (names InternalProperties m) \<or> v \<in> set (names InternalMethods m)
        \<or> v \<in> set (names Lifecycle m)" by simp
    then obtain b where b: "b \<in> {InternalProperties, InternalMethods, Lifecycle}"
      "v \<in> set (names b m)" by blast
    from b(2) obtain y where y: "y \<in> set (classMembers t)" "placedIn b y" "toName y = v"
      unfolding names_gatherDocumentMeta[OF g] by auto
    from b(1) y(2) have "decorators y = None" by auto
    with y show ?thesis by blast
  qed
qed

text \<open>
  The amended claim at a component whose member \<^verbatim>\<open>value\<close> carries a foreign decorator only.
\<close>

theorem C10_amended_witness:
  "property_decl (Some [decorator_call ''Input'' []]) ''value'' \<in> set (classMembers exampleForeignDecorators)
   \<and> roleCount (property_decl (Some [decorator_call ''Input'' []]) ''value'') = 0
   \<and> (\<exists>m. gatherDocumentMeta exampleForeignDecorators = Inr m
        \<and> JString ''value'' \<notin> set (names Props m)
        \<and> internalProperties m = [JString ''total'']
        \<and> list_ex (\<lambda>y. toName y = JString ''total'' \<and> decorators y = None)
              (classMembers exampleForeignDecorators))"
proof -
  let ?x = "property_decl (Some [decorator_call ''Input'' []]) ''value''"
  let ?m = "emptyMeta\<lparr>className := JString ''MyComponent'',
              internalProperties := [JString ''total'']\<rparr>"
  have g: "gatherDocumentMeta exampleForeignDecorators = Inr ?m"
    by code_simp
  have cm: "classMembers exampleForeignDecorators =
      [?x, method_decl (Some [OtherDecorator]) ''handler'', property_decl None ''total'']"
    by code_simp
  have x: "?x \<in> set (classMembers exampleForeignDecorators)"
    unfolding cm by simp
  have ds: "decorators ?x = Some [decorator_call ''Input'' []]" "[decorator_call ''Input'' []] \<noteq> []"
    by (simp_all add: property_decl_def)
  have nr: "roleCount ?x = 0" by code_simp
  have u: "\<forall>y\<in>set (classMembers exampleForeignDecorators). toName y = toName ?x \<longrightarrow> y = ?x"
    unfolding cm by (simp add: toName_def property_decl_def method_decl_def)
  have t: "toName ?x = JString ''value''" by (simp add: toName_def property_decl_def)
  have v: "JString ''total'' \<in> set (internalProperties ?m) \<union> set (internalMethods ?m)
      \<union> set (lifecycle ?m)"
    by (simp add: emptyMeta_def)
  note c10 = C10_amended[OF g x ds nr, of Props "JString ''total''"]
  from c10 u have "toName ?x \<notin> set (names Props ?m)"
    by blast
  moreover from c10 v
  have "\<exists>y\<in>set (classMembers exampleForeignDecorators). toName y = JString ''total'' \<and> decorators y = None"
    by blast
  ultimately show ?thesis using x nr g t
    by (simp add: emptyMeta_def list_ex_iff)
qed

text \<open>
  Claim C10 as stated fails: the buckets hold names, not members, so the name of a member
  with a foreign decorator only is in \<^verbatim>\<open>internalProperties\<close> when an undecorated property of
  the same name stands beside it.
\<close>

theorem C10_counterexample:
  "property_decl (Some [decorator_call ''Input'' []]) ''value'' \<in> set (classMembers exampleSameName)
   \<and> decorators (property_decl (Some [decorator_call ''Input'' []]) ''value'')
        = Some [decorator_call ''Input'' []]
   \<and> roleCount (property_decl (Some [decorator_call ''Input'' []]) ''value'') = 0
   \<and> toName (property_decl (Some [decorator_call ''Input'' []]) ''value'') = JString ''value''
   \<and> map_sum id internalProperties (gatherDocumentMeta exampleSameName) = Inr [JString ''value'']"
  by code_simp

section \<open>Sort keys (C5)\<close>

lemma indexOf_absent: "v \<notin> set xs \<Longrightarrow> indexOf xs v = -1"
  by (induction xs) (auto simp: Let_def)

lemmas sort_defs = getSortText_def categoryLetter_def categoryRank_def categories_def
  letters_def array_at_def Let_def

lemma categoryRank_le: "categoryRank c \<le> 12"
proof (cases "c \<in> set categories")
  case True
  then have "c = ''own property'' \<or> c = ''element'' \<or> c = ''state'' \<or> c = ''prop:connect''
    \<or> c = ''prop:context'' \<or> c = ''prop'' \<or> c = ''watch'' \<or> c = ''event'' \<or> c = ''lifecycle''
    \<or> c = ''listen'' \<or> c = ''method'' \<or> c = ''local method''"
    by (simp add: categories_def)
  then show ?thesis
    by (elim disjE) (simp_all add: categoryRank_def categories_def)
next
  case False
  then show ?thesis by (simp add: categoryRank_def indexOf_absent) (simp add: categories_def)
qed

lemma getSortText_plain:
  assumes "c \<noteq> ''lifecycle''"
  shows "getSortText c n = categoryLetter c # ''-'' @ n"
proof (cases "c \<in> set categories")
  case True
  with assms have "c = ''own property'' \<or> c = ''element'' \<or> c = ''state'' \<or> c = ''prop:connect''
    \<or> c = ''prop:context'' \<or> c = ''prop'' \<or> c = ''watch'' \<or> c = ''event''
    \<or> c = ''listen'' \<or> c = ''method'' \<or> c = ''local method''"
    by (simp add: categories_def)
  then show ?thesis
    by (elim disjE) (simp_all add: sort_defs)
next
  case False
  with assms show ?thesis
    by (simp add: getSortText_def categoryLetter_def categoryRank_def indexOf_absent)
       (simp add: categories_def)
qed

lemma getSortText_lifecycle:
  "getSortText ''lifecycle'' n =
     categoryLetter ''lifecycle'' # to_string (array_at letters (indexOf lifecycles n)) @ ''-'' @ n"
  by (simp add: getSortText_def categoryLetter_def categoryRank_def categories_def Let_def)
     (simp add: letters_def array_at_def)

lemma letters_sorted: "sorted_wrt (<) ''abcdefghijklz''"
  by (simp add: less_char_def)

lemma categoryLetter_mono:
  assumes "categoryRank c1 < categoryRank c2"
  shows "categoryLetter c1 < categoryLetter c2"
proof -
  from categoryRank_le[of c2] have "categoryRank c2 < length ''abcdefghijklz''" by simp
  with assms letters_sorted show ?thesis
    unfolding categoryLetter_def by (simp only: sorted_wrt_iff_nth_less)
qed

lemma append_less_cancel: "(xs @ ys < xs @ zs) = (ys < (zs :: 'a::linorder list))"
  by (induction xs) simp_all

lemma getSortText_head: "\<exists>rest. getSortText c n = categoryLetter c # rest"
  by (cases "c = ''lifecycle''") (simp_all add: getSortText_plain getSortText_lifecycle)

lemma lifecycle_keys:
  "map (getSortText ''lifecycle'') lifecycles =
     [''ia-componentWillLoad'', ''ib-componentDidLoad'', ''ic-componentWillUpdate'',
      ''id-componentDidUpdate'', ''ie-componentDidUnload'']"
  by code_simp

lemma lifecycle_keys_sorted: "sorted_wrt (<) (map (getSortText ''lifecycle'') lifecycles)"
  unfolding lifecycle_keys by (simp add: less_char_def)

text \<open>
  Claim C5. Under the lexicographic order of strings, the keys of \<^verbatim>\<open>getSortText\<close> order
  members first by category in the canonical order, an unrecognized category after every
  recognized one; within a category other than lifecycle by member name; and the five
  lifecycle names in the canonical phase order componentWillLoad, componentDidLoad,
  componentWillUpdate, componentDidUpdate, componentDidUnload.
\<close>

theorem C5_sort_keys:
  "(categoryRank c1 < categoryRank c2 \<longrightarrow> getSortText c1 n1 < getSortText c2 n2)
   \<and> (c \<noteq> ''lifecycle'' \<longrightarrow> (getSortText c n1 < getSortText c n2) = (n1 < n2))
   \<and> (i < j \<and> j < length lifecycles \<longrightarrow>
        getSortText ''lifecycle'' (lifecycles ! i) < getSortText ''lifecycle'' (lifecycles ! j))"
proof (intro conjI impI)
  assume r: "categoryRank c1 < categoryRank c2"
  from getSortText_head[of c1 n1] obtain r1 where 1: "getSortText c1 n1 = categoryLetter c1 # r1" ..
  from getSortText_head[of c2 n2] obtain r2 where 2: "getSortText c2 n2 = categoryLetter c2 # r2" ..
  from categoryLetter_mono[OF r] show "getSortText c1 n1 < getSortText c2 n2"
    unfolding 1 2 by simp
next
  assume c: "c \<noteq> ''lifecycle''"
  have "getSortText c n1 = (categoryLetter c # ''-'') @ n1"
    "getSortText c n2 = (categoryLetter c # ''-'') @ n2"
    by (simp_all add: getSortText_plain[OF c])
  then show "(getSortText c n1 < getSortText c n2) = (n1 < n2)"
    by (simp only: append_less_cancel)
next
  assume ij: "i < j \<and> j < length lifecycles"
  with lifecycle_keys_sorted have "map (getSortText ''lifecycle'') lifecycles ! i
       < map (getSortText ''lifecycle'') lifecycles ! j"
    by (simp only: sorted_wrt_iff_nth_less length_map)
  with ij show "getSortText ''lifecycle'' (lifecycles ! i) < getSortText ''lifecycle'' (lifecycles ! j)"
    by simp
qed

text \<open>The three parts of the claim at concrete categories and names.\<close>

theorem C5_sort_keys_witness:
  "categoryRank ''state'' < categoryRank ''prop''
   \<and> getSortText ''state'' ''zeta'' < getSortText ''prop'' ''alpha''
   \<and> ''method'' \<noteq> ''lifecycle''
   \<and> (getSortText ''method'' ''open'' < getSortText ''method'' ''close'') = (''open'' < ''close'')
   \<and> (1::nat) < 2 \<and> 2 < length lifecycles
   \<and> getSortText ''lifecycle'' (lifecycles ! 1) < getSortText ''lifecycle'' (lifecycles ! 2)"
proof -
  have r: "categoryRank ''state'' < categoryRank ''prop''" by code_simp
  have l: "(1::nat) < 2 \<and> 2 < length lifecycles" by (simp add: lifecycles_def)
  have n: "''method'' \<noteq> ''lifecycle''" by simp
  note t = C5_sort_keys[of "''state''" "''prop''" "''zeta''" "''alpha''" "''method''" 1 2]
  note t' = C5_sort_keys[of "''state''" "''prop''" "''open''" "''close''" "''method''" 1 2]
  from t r have a: "getSortText ''state'' ''zeta'' < getSortText ''prop'' ''alpha''" by blast
  from t' n have b: "(getSortText ''method'' ''open'' < getSortText ''method'' ''close'') = (''open'' < ''close'')"
    by blast
  from t l have c: "getSortText ''lifecycle'' (lifecycles ! 1) < getSortText ''lifecycle'' (lifecycles ! 2)"
    by blast
  from r a n b l c show ?thesis by blast
qed

section \<open>checkType on unions (C7)\<close>

text \<open>
  Claim C7, as amended. \<^verbatim>\<open>checkType\<close> returns true iff the predicate is true for at least
  one member type of the flattened union, or for a union type itself: the one passed in
  or one nested in it. (For a type that is not a union, this is the predicate at the type.)
\<close>

theorem C7_amended:
  "checkType u t check = (list_ex check (flattened u t) \<or> list_ex check (unionsOf u t))"
proof (induction u t check rule: checkType.induct)
  case (1 u fl ts check)
  show ?case
  proof (cases "fl AND u \<noteq> 0")
    case False
    then show ?thesis by simp
  next
    case True
    with 1 have IH: "\<And>t. t \<in> set ts \<Longrightarrow>
      checkType u t check = (list_ex check (flattened u t) \<or> list_ex check (unionsOf u t))"
      by simp
    have "list_ex (\<lambda>t. checkType u t check) ts
       = (list_ex check (concat (map (flattened u) ts)) \<or> list_ex check (concat (map (unionsOf u) ts)))"
      using IH by (induction ts) auto
    with True show ?thesis by auto
  qed
qed

text \<open>The amended claim at the type \<^verbatim>\<open>boolean\<close>, with the predicate true at the union only.\<close>

theorem C7_amended_witness:
  "checkType TypeFlags_Union booleanType hasBooleanFlag
   \<and> list_ex hasBooleanFlag (unionsOf TypeFlags_Union booleanType)"
proof -
  have "list_ex hasBooleanFlag (unionsOf TypeFlags_Union booleanType)"
    by (simp add: booleanType_def hasBooleanFlag_def TypeFlags_Union_def TypeFlags_Boolean_def
        TypeFlags_BooleanLiteral_def)
  with C7_amended[of TypeFlags_Union booleanType hasBooleanFlag] show ?thesis by simp
qed

text \<open>
  Claim C7 as stated fails: when no member matches, \<^verbatim>\<open>checkType\<close> falls through to
  \<^verbatim>\<open>check(type)\<close> on the union itself. For \<^verbatim>\<open>boolean\<close> and the predicate
  \<^verbatim>\<open>t => !!(t.flags & ts.TypeFlags.Boolean)\<close> it returns true although the predicate is
  false for both member types.
\<close>

theorem C7_counterexample:
  "checkType TypeFlags_Union booleanType hasBooleanFlag
   \<and> \<not> list_ex hasBooleanFlag (flattened TypeFlags_Union booleanType)"
  by (simp add: booleanType_def hasBooleanFlag_def TypeFlags_Union_def TypeFlags_Boolean_def
      TypeFlags_BooleanLiteral_def)

section \<open>The detail cache (C9)\<close>










section \<open>Details of a member that is in no bucket (C6)\<close>

lemma unmatched_member_raises:
  assumes "gatherMetaOf (gsf f) = Inr meta" and "host f p n = Some prior"
    and "entry_kind prior = ''property'' \<or> entry_kind prior = ''method''"
    and "getCategory meta n = None"
    and "\<not> cachedFor f p n (cachedCompletionEntryDetails s n) s"
  shows "fst (getCompletionEntryDetails gsf host s f p n) = Inl TypeError"
proof -
  from assms(1-4) have "fst (lookupDetails gsf host s f p n) = Inl TypeError"
    by (auto simp: lookupDetails_def decorateDetails_def Let_def)
  with assms(5) show ?thesis
    by (auto simp: getCompletionEntryDetails_def cachedFor_def split: option.splits)
qed

text \<open>
  Claim C6 at the inherited member \<^verbatim>\<open>toString\<close>, which is in no bucket of the example
  component: the host answers with a detail of kind \<^verbatim>\<open>property\<close>, \<^verbatim>\<open>getCategory\<close> yields
  \<^verbatim>\<open>undefined\<close>, and destructuring it raises a TypeError instead of returning the host's
  answer.
\<close>

theorem C6_unmatched_member_raises:
  "exampleHostDetails ''my-component.tsx'' 120 ''toString''
     = Some \<lparr>entry_name = ''toString'', entry_kind = ''property'',
             displayParts = hostDisplayParts ''property'' ''toString'', documentation = []\<rparr>
   \<and> map_sum id (\<lambda>m. getCategory m ''toString'') (gatherMetaOf (exampleSources ''my-component.tsx''))
       = Inr None
   \<and> fst (getCompletionEntryDetails exampleSources exampleHostDetails initialCache
            ''my-component.tsx'' 120 ''toString'') = Inl TypeError"
  by code_simp

section \<open>Find references (C8)\<close>

lemma occursAt_Cons_Suc: "occursAt (c # cs) pat (Suc i) = occursAt cs pat i"
  by (simp add: occursAt_def)

lemma occursAt_0: "occursAt src pat 0 = (take (length pat) src = pat)"
proof -
  have "length pat \<le> length src" if "take (length pat) src = pat"
  proof -
    from that have "length (take (length pat) src) = length pat" by simp
    then show ?thesis by simp
  qed
  then show ?thesis by (auto simp: occursAt_def)
qed

lemma firstOccurrence_Suc:
  assumes "firstOccurrence cs pat i" and "\<not> occursAt (c # cs) pat 0"
  shows "firstOccurrence (c # cs) pat (Suc i)"
proof -
  have "\<not> occursAt (c # cs) pat j" if "j < Suc i" for j
  proof (cases j)
    case 0
    with assms(2) show ?thesis by simp
  next
    case (Suc k)
    with that assms(1) show ?thesis
      by (simp add: firstOccurrence_def list_all_iff occursAt_Cons_Suc)
  qed
  with assms(1) show ?thesis
    by (simp add: firstOccurrence_def list_all_iff occursAt_Cons_Suc del: upt_Suc)
qed

lemma string_indexOf_first:
  "string_indexOf src pat = -1 \<and> (\<forall>i. \<not> occursAt src pat i)
   \<or> (\<exists>i. string_indexOf src pat = int i \<and> firstOccurrence src pat i)"
proof (induction src)
  case Nil
  show ?case
  proof (cases "pat = []")
    case True
    then have "firstOccurrence [] pat 0" by (simp add: firstOccurrence_def occursAt_def)
    moreover from True have "string_indexOf [] pat = int 0" by simp
    ultimately show ?thesis by blast
  next
    case False
    then show ?thesis by (auto simp: occursAt_def)
  qed
next
  case (Cons c cs)
  show ?case
  proof (cases "take (length pat) (c # cs) = pat")
    case True
    then have "firstOccurrence (c # cs) pat 0"
      by (simp add: firstOccurrence_def occursAt_0)
    moreover from True have "string_indexOf (c # cs) pat = int 0" by simp
    ultimately show ?thesis by blast
  next
    case False
    then have n0: "\<not> occursAt (c # cs) pat 0" by (simp add: occursAt_0)
    from Cons.IH show ?thesis
    proof
      assume a: "string_indexOf cs pat = -1 \<and> (\<forall>i. \<not> occursAt cs pat i)"
      have "\<not> occursAt (c # cs) pat i" for i
        using a n0 by (cases i) (simp_all add: occursAt_Cons_Suc)
      with a False show ?thesis by (simp add: Let_def)
    next
      assume "\<exists>i. string_indexOf cs pat = int i \<and> firstOccurrence cs pat i"
      then obtain i where i: "string_indexOf cs pat = int i" "firstOccurrence cs pat i" by blast
      from firstOccurrence_Suc[OF i(2) n0] have "firstOccurrence (c # cs) pat (Suc i)" .
      moreover from i(1) False have "string_indexOf (c # cs) pat = int (Suc i)"
        by (simp add: Let_def)
      ultimately show ?thesis by blast
    qed
  qed
qed

lemma contains_iff: "contains src pat = (\<exists>i. occursAt src pat i)"
proof
  assume "contains src pat"
  then show "\<exists>i. occursAt src pat i" by (auto simp: contains_def list_ex_iff)
next
  assume "\<exists>i. occursAt src pat i"
  then obtain i where i: "occursAt src pat i" by blast
  then have "i < Suc (length src)" by (simp add: occursAt_def)
  with i show "contains src pat"
    unfolding contains_def list_ex_iff by (auto simp del: upt_Suc)
qed

lemma string_indexOf_found:
  assumes "contains src pat"
  shows "\<exists>i. string_indexOf src pat = int i \<and> firstOccurrence src pat i"
  using string_indexOf_first[of src pat] assms by (auto simp: contains_iff)

lemma string_indexOf_not_found:
  assumes "\<not> contains src pat"
  shows "\<not> string_indexOf src pat > -1"
proof -
  from assms have "\<not> occursAt src pat i" for i by (simp add: contains_iff)
  with string_indexOf_first[of src pat] show ?thesis
    by (auto simp: firstOccurrence_def)
qed

text \<open>
  Claim C8, as amended. For a request whose source file, model and node exist: when the
  name at the position is the observed property of a watched entry, the raw text holds
  the name in double or in single quotes, and the host's list is not empty, exactly one
  record is appended to the host's list; it lies just after the opening quote of the
  first double-quoted occurrence of the name if there is one, and of the first
  single-quoted occurrence otherwise, has the length of the name, the definition of the
  host's first record, and is marked as a write access in a string that is not a
  definition. When the name is not the observed property of a watched entry, the host's
  list is returned as it is.
\<close>

theorem C8_amended:
  assumes sf: "getSourceFile f = Some sf"
    and meta: "gatherDocumentMeta (rootNode sf) = Inr meta"
    and nd: "findNode sf p = Some nd"
    and tx: "nodeText nd = Inr nameAt"
  shows "(nameAt = Some t \<and> list_ex (\<lambda>w. w_prop w = JString t) (watched meta)
          \<and> (contains (getText sf) (quoted doubleQuote t)
               \<or> contains (getText sf) (quoted singleQuote t))
          \<and> hostReferences f p = Some (r # rs)
          \<longrightarrow> (\<exists>i. firstOccurrence (getText sf)
                      (if contains (getText sf) (quoted doubleQuote t)
                       then quoted doubleQuote t else quoted singleQuote t) i
                 \<and> findReferences getSourceFile findNode hostReferences f p =
                     Inr (Some ((r # rs) @
                       [ReferencedSymbol (symbol_definition r)
                          [ReferenceEntry (TextSpan (int i + 1) (int (length t))) f
                             False True True]]))))
     \<and> (\<not> (\<exists>u. nameAt = Some u \<and> list_ex (\<lambda>w. w_prop w = JString u) (watched meta))
          \<longrightarrow> findReferences getSourceFile findNode hostReferences f p = Inr (hostReferences f p))"
proof (intro conjI impI)
  assume a: "nameAt = Some t \<and> list_ex (\<lambda>w. w_prop w = JString t) (watched meta)
          \<and> (contains (getText sf) (quoted doubleQuote t)
               \<or> contains (getText sf) (quoted singleQuote t))
          \<and> hostReferences f p = Some (r # rs)"
  let ?pat = "if contains (getText sf) (quoted doubleQuote t)
                       then quoted doubleQuote t else quoted singleQuote t"
  from a have c: "contains (getText sf) ?pat" by auto
  from string_indexOf_found[OF c] obtain i where
    i: "string_indexOf (getText sf) ?pat = int i" "firstOccurrence (getText sf) ?pat i"
    by blast
  have found: "(let found0 = string_indexOf (getText sf) (quoted doubleQuote t)
                in if \<not> found0 > -1
                   then string_indexOf (getText sf) (quoted singleQuote t)
                   else found0) = int i"
  proof (cases "contains (getText sf) (quoted doubleQuote t)")
    case True
    with i(1) show ?thesis by (simp add: Let_def)
  next
    case False
    with i(1) string_indexOf_not_found[OF False] show ?thesis by (simp add: Let_def)
  qed
  have "findReferences getSourceFile findNode hostReferences f p =
      Inr (Some ((r # rs) @
             [ReferencedSymbol (symbol_definition r)
                [ReferenceEntry (TextSpan (int i + 1) (int (length t))) f False True True]]))"
    using sf meta nd tx a found
    by (simp add: findReferences_def Let_def)
  with i(2) show "\<exists>i. firstOccurrence (getText sf) ?pat i
      \<and> findReferences getSourceFile findNode hostReferences f p =
          Inr (Some ((r # rs) @
                 [ReferencedSymbol (symbol_definition r)
                    [ReferenceEntry (TextSpan (int i + 1) (int (length t))) f False True True]]))"
    by blast
next
  assume "\<not> (\<exists>u. nameAt = Some u \<and> list_ex (\<lambda>w. w_prop w = JString u) (watched meta))"
  with sf meta nd tx
  show "findReferences getSourceFile findNode hostReferences f p = Inr (hostReferences f p)"
    by (cases nameAt) (simp_all add: findReferences_def Let_def)
qed

text \<open>
  Claim C8 as stated fails: in the example text \<^verbatim>\<open>'name'\<close> stands at index 4, before
  \<^verbatim>\<open>"name"\<close> at index 19, and the appended record starts at 20, inside the double-quoted
  occurrence, which is not the first occurrence of the name in either quoting style.
\<close>

theorem C8_counterexample:
  "findReferences exampleWatchedSources exampleFindNode exampleHostReferences
      ''my-component.tsx'' 60
   = Inr (Some [ReferencedSymbol ''name''
                  [ReferenceEntry (TextSpan 60 4) ''my-component.tsx'' True True False],
                ReferencedSymbol ''name''
                  [ReferenceEntry (TextSpan 20 4) ''my-component.tsx'' False True True]])
   \<and> firstOccurrence exampleWatchedText (quoted singleQuote ''name'') 4
   \<and> firstOccurrence exampleWatchedText (quoted doubleQuote ''name'') 19"
  by code_simp

text \<open>
  The amended claim at the example: at the property \<^verbatim>\<open>name\<close> the record is appended at the
  double-quoted name; at the handler \<^verbatim>\<open>onNameChange\<close>, which no entry observes, the host's
  list comes back as it is.
\<close>

theorem C8_amended_witness:
  "contains exampleWatchedText (quoted doubleQuote ''name'')
   \<and> (\<exists>i. firstOccurrence exampleWatchedText (quoted doubleQuote ''name'') i
        \<and> findReferences exampleWatchedSources exampleFindNode exampleHostReferences
             ''my-component.tsx'' 60
           = Inr (Some [ReferencedSymbol ''name''
                          [ReferenceEntry (TextSpan 60 4) ''my-component.tsx'' True True False],
                        ReferencedSymbol ''name''
                          [ReferenceEntry (TextSpan (int i + 1) 4) ''my-component.tsx''
                             False True True]]))
   \<and> findReferences exampleWatchedSources exampleFindNode exampleHostReferences
         ''my-component.tsx'' 35
       = Inr (exampleHostReferences ''my-component.tsx'' 35)"
proof -
  let ?sf = "\<lparr>getText = exampleWatchedText, rootNode = exampleWatchedName\<rparr>"
  let ?meta = "emptyMeta\<lparr>className := JString ''MyComponent'', props := [JString ''name''],
      watched := [Watcher (JString ''name'') (JString ''onNameChange'')]\<rparr>"
  let ?r = "ReferencedSymbol ''name''
              [ReferenceEntry (TextSpan 60 4) ''my-component.tsx'' True True False]"
  have sf: "exampleWatchedSources ''my-component.tsx'' = Some ?sf"
    by (simp add: exampleWatchedSources_def)
  have meta: "gatherDocumentMeta (rootNode ?sf) = Inr ?meta"
    unfolding source_file.simps by code_simp
  have nd: "exampleFindNode ?sf 60 = Some (Node (Identifier ''name'') None NoName [] [])"
    by (simp add: exampleFindNode_def)
  have tx: "nodeText (Node (Identifier ''name'') None NoName [] []) = Inr (Some ''name'')"
    by (simp add: nodeText_def)
  have nd': "exampleFindNode ?sf 35 = Some (Node (Identifier ''onNameChange'') None NoName [] [])"
    by (simp add: exampleFindNode_def)
  have tx': "nodeText (Node (Identifier ''onNameChange'') None NoName [] [])
      = Inr (Some ''onNameChange'')"
    by (simp add: nodeText_def)
  have w: "list_ex (\<lambda>w. w_prop w = JString ''name'') (watched ?meta)"
    by simp
  have w': "\<not> (\<exists>u. Some ''onNameChange'' = Some u
                \<and> list_ex (\<lambda>w. w_prop w = JString u) (watched ?meta))"
    by simp
  have c: "contains exampleWatchedText (quoted doubleQuote ''name'')"
    by code_simp
  have h: "exampleHostReferences ''my-component.tsx'' 60 = Some (?r # [])"
    by (simp add: exampleHostReferences_def)
  from C8_amended[where getSourceFile = exampleWatchedSources and findNode = exampleFindNode
      and f = "''my-component.tsx''" and p = 60 and t = "''name''"
      and hostReferences = exampleHostReferences and r = ?r and rs = "[]",
      OF sf meta nd tx] w c h
  have 1: "\<exists>i. firstOccurrence exampleWatchedText (quoted doubleQuote ''name'') i
        \<and> findReferences exampleWatchedSources exampleFindNode exampleHostReferences
             ''my-component.tsx'' 60
           = Inr (Some ([?r] @ [ReferencedSymbol (symbol_definition ?r)
                          [ReferenceEntry (TextSpan (int i + 1) (int (length ''name'')))
                             ''my-component.tsx'' False True True]]))"
    by simp
  from C8_amended[where getSourceFile = exampleWatchedSources and findNode = exampleFindNode
      and f = "''my-component.tsx''" and p = 35
      and hostReferences = exampleHostReferences, OF sf meta nd' tx'] w'
  have 2: "findReferences exampleWatchedSources exampleFindNode exampleHostReferences
         ''my-component.tsx'' 35 = Inr (exampleHostReferences ''my-component.tsx'' 35)"
    by blast
  from c 1 2 show ?thesis by simp
qed

text \<open>With an empty list from the host, the same request raises instead of appending.\<close>

lemma example_findReferences_empty_host_list:
  "findReferences exampleWatchedSources exampleFindNode exampleNoReferences
      ''my-component.tsx'' 60 = Inl TypeError"
  by code_simp

end
